theory Spec2Isabelle
  imports Main "HOL-Library.Log_Nat" "HOL-Library.Multiset" "HOL-Library.Product_Lexorder"
begin

section \<open>JavaScript values\<close>

text \<open>
  The handler of \<^verbatim>\<open>POST /api/find-and-buy\<close> in \<^verbatim>\<open>server.js\<close> works on values that come out
  of \<^verbatim>\<open>JSON.parse\<close>: \<^verbatim>\<open>null\<close>, booleans, Numbers, strings, arrays and objects; a property
  that is absent reads as \<^verbatim>\<open>undefined\<close>.

  A Number is an IEEE 754 double. A finite double is represented by the rational it denotes
  (\<open>Fin\<close>); the two zeros \<open>+0\<close> and \<open>-0\<close> are one value \<open>Fin 0\<close> (they compare equal, and
  \<^verbatim>\<open>JSON.stringify\<close> prints both as \<^verbatim>\<open>0\<close>). A string is the list of the bytes of its
  UTF-8 encoding, a surrogate without its partner being written by the same scheme in
  three bytes; the handler tests strings for emptiness, compares keys and looks for the
  two braces, which are single bytes that occur in no longer sequence. An object is the
  list of its own properties in the order the language enumerates them.
\<close>

datatype jsnum = NaN | NegInf | Fin rat | PosInf

datatype jsval =
    JUndefined
  | JNull
  | JBool bool
  | JNum jsnum
  | JStr string
  | JArr "jsval list"
  | JObj "(string \<times> jsval) list"

type_synonym obj = "(string \<times> jsval) list"

subsection \<open>Rounding to the nearest double\<close>

text \<open>
  \<open>ilog2 x\<close> is \<open>\<lfloor>log\<^sub>2 x\<rfloor>\<close> for a positive rational: the bit lengths of numerator and
  denominator give it up to one, and a comparison settles which.
\<close>

definition ilog2 :: "rat \<Rightarrow> int" where
  "ilog2 x =
     (let (p, q) = quotient_of x;
          k = bitlen p - bitlen q
      in if 2 powi k \<le> x then k else k - 1)"

definition round_half_even :: "rat \<Rightarrow> int" where
  "round_half_even x =
     (let f = \<lfloor>x\<rfloor>; d = x - of_int f
      in if d < 1 / 2 then f
         else if 1 / 2 < d then f + 1
         else if even f then f else f + 1)"

text \<open>
  \<open>fl x\<close> is the double nearest to the real number \<open>x\<close>, ties to even (the rounding of
  every arithmetic operation of the language): a significand \<open>m\<close> of 53 bits, the least
  exponent \<open>-1074\<close> (subnormal numbers), and an infinity once the rounded magnitude
  \<open>m \<cdot> 2\<^sup>e\<close> reaches \<open>2\<^sup>1\<^sup>0\<^sup>2\<^sup>4\<close>, which is when the bit length of \<open>m\<close> plus \<open>e\<close> exceeds
  1024 (lemma \<open>fl_overflow\<close> below).
\<close>

definition fl :: "rat \<Rightarrow> jsnum" where
  "fl x =
     (if x = 0 then Fin 0
      else
        let a = \<bar>x\<bar>;
            e = max (ilog2 a - 52) (- 1074);
            m = round_half_even (a / 2 powi e);
            r = of_int m * 2 powi e
        in if 1024 < bitlen m + e then (if 0 < x then PosInf else NegInf)
           else Fin (if 0 < x then r else - r))"

subsection \<open>The operators the handler applies to Numbers\<close>

fun js_div :: "jsnum \<Rightarrow> jsnum \<Rightarrow> jsnum" where
  "js_div NaN _ = NaN"
| "js_div _ NaN = NaN"
| "js_div (Fin a) (Fin b) =
     (if b = 0 then (if a = 0 then NaN else if 0 < a then PosInf else NegInf)
      else fl (a / b))"
| "js_div (Fin a) _ = Fin 0"
| "js_div PosInf (Fin b) = (if 0 \<le> b then PosInf else NegInf)"
| "js_div NegInf (Fin b) = (if 0 \<le> b then NegInf else PosInf)"
| "js_div _ _ = NaN"

fun js_sub :: "jsnum \<Rightarrow> jsnum \<Rightarrow> jsnum" where
  "js_sub NaN _ = NaN"
| "js_sub _ NaN = NaN"
| "js_sub (Fin a) (Fin b) = fl (a - b)"
| "js_sub (Fin a) PosInf = NegInf"
| "js_sub (Fin a) NegInf = PosInf"
| "js_sub PosInf PosInf = NaN"
| "js_sub PosInf _ = PosInf"
| "js_sub NegInf NegInf = NaN"
| "js_sub NegInf _ = NegInf"

fun js_lt :: "jsnum \<Rightarrow> jsnum \<Rightarrow> bool" where
  "js_lt NaN _ = False"
| "js_lt _ NaN = False"
| "js_lt (Fin a) (Fin b) = (a < b)"
| "js_lt NegInf NegInf = False"
| "js_lt NegInf _ = True"
| "js_lt _ NegInf = False"
| "js_lt PosInf _ = False"
| "js_lt _ PosInf = True"

definition js_le :: "jsnum \<Rightarrow> jsnum \<Rightarrow> bool" where
  "js_le a b = (a \<noteq> NaN \<and> b \<noteq> NaN \<and> (a = b \<or> js_lt a b))"

text \<open>
  \<open>to_number\<close> reads the Number out of a value. The handler divides and compares only
  values that \<^verbatim>\<open>Number.isFinite\<close> has accepted (lemma \<open>qualifies_numbers\<close> below), so the
  coercion of a string, an array or an object to a Number is never reached; it is not
  modelled and stands for \<open>NaN\<close> here.
\<close>

fun to_number :: "jsval \<Rightarrow> jsnum" where
  "to_number (JNum n) = n"
| "to_number JNull = Fin 0"
| "to_number (JBool b) = Fin (if b then 1 else 0)"
| "to_number _ = NaN"

fun number_isFinite :: "jsval \<Rightarrow> bool" where
  "number_isFinite (JNum (Fin _)) = True"
| "number_isFinite _ = False"

fun truthy :: "jsval \<Rightarrow> bool" where
  "truthy JUndefined = False"
| "truthy JNull = False"
| "truthy (JBool b) = b"
| "truthy (JNum n) = (n \<noteq> NaN \<and> n \<noteq> Fin 0)"
| "truthy (JStr s) = (s \<noteq> [])"
| "truthy (JArr _) = True"
| "truthy (JObj _) = True"

fun js_typeof :: "jsval \<Rightarrow> string" where
  "js_typeof JUndefined = ''undefined''"
| "js_typeof JNull = ''object''"
| "js_typeof (JBool _) = ''boolean''"
| "js_typeof (JNum _) = ''number''"
| "js_typeof (JStr _) = ''string''"
| "js_typeof (JArr _) = ''object''"
| "js_typeof (JObj _) = ''object''"

fun array_isArray :: "jsval \<Rightarrow> bool" where
  "array_isArray (JArr _) = True"
| "array_isArray _ = False"

fun elements :: "jsval \<Rightarrow> jsval list" where
  "elements (JArr xs) = xs"
| "elements _ = []"

subsection \<open>Properties\<close>

text \<open>
  Reading a property of \<^verbatim>\<open>null\<close> or \<^verbatim>\<open>undefined\<close> throws a \<^verbatim>\<open>TypeError\<close> (\<open>None\<close>). The
  handler reads the keys \<^verbatim>\<open>query\<close>, \<^verbatim>\<open>items\<close>, \<^verbatim>\<open>results\<close>, \<^verbatim>\<open>basePrice\<close>, \<^verbatim>\<open>packSize\<close>,
  \<^verbatim>\<open>unitPrice\<close>, \<^verbatim>\<open>productUrl\<close>, \<^verbatim>\<open>result\<close> and \<^verbatim>\<open>data\<close> only; none of them is a built-in
  property of a string, an array, a Number or a boolean, which therefore read as
  \<^verbatim>\<open>undefined\<close>.
\<close>

definition obj_get :: "obj \<Rightarrow> string \<Rightarrow> jsval" where
  "obj_get kvs k = (case map_of kvs k of None \<Rightarrow> JUndefined | Some v \<Rightarrow> v)"

fun get_prop :: "jsval \<Rightarrow> string \<Rightarrow> jsval option" where
  "get_prop JUndefined k = None"
| "get_prop JNull k = None"
| "get_prop (JObj kvs) k = Some (obj_get kvs k)"
| "get_prop _ k = Some JUndefined"

text \<open>\<^verbatim>\<open>v?.k\<close>: \<^verbatim>\<open>undefined\<close> where the plain read would throw.\<close>

definition opt_prop :: "jsval \<Rightarrow> string \<Rightarrow> jsval" where
  "opt_prop v k = (case get_prop v k of None \<Rightarrow> JUndefined | Some x \<Rightarrow> x)"

text \<open>\<^verbatim>\<open>a ?? b\<close>.\<close>

definition nullish :: "jsval \<Rightarrow> bool" where
  "nullish v = (v = JUndefined \<or> v = JNull)"

text \<open>
  The own properties of an object are enumerated with the array indices first, in
  ascending order, and then the other keys in the order of their creation. An array
  index is the decimal numeral, without a leading zero, of a number below \<open>2\<^sup>3\<^sup>2 - 1\<close>.
\<close>

definition is_digit :: "char \<Rightarrow> bool" where
  "is_digit c = (48 \<le> (of_char c :: nat) \<and> (of_char c :: nat) \<le> 57)"

definition digits_value :: "string \<Rightarrow> int" where
  "digits_value ds = foldl (\<lambda>a c. 10 * a + (of_char c - 48)) 0 ds"

definition array_index :: "string \<Rightarrow> int option" where
  "array_index k =
     (if k \<noteq> [] \<and> list_all is_digit k
         \<and> (if hd k = CHR ''0'' then k = ''0'' else True)
         \<and> digits_value k < 4294967295
      then Some (digits_value k) else None)"

text \<open>Whether a new key \<open>k\<close> is enumerated before the key \<open>k'\<close> that is there.\<close>

definition goes_before :: "string \<Rightarrow> string \<Rightarrow> bool" where
  "goes_before k k' =
     (case array_index k of
        None \<Rightarrow> False
      | Some i \<Rightarrow> (case array_index k' of None \<Rightarrow> True | Some j \<Rightarrow> i < j))"

text \<open>
  Storing a property keeps the position of a key that is already there
  (\<open>replace_prop\<close>) and puts a new key at its place in the enumeration
  (\<open>insert_prop\<close>): at the end, unless it is an array index.
\<close>

fun replace_prop :: "obj \<Rightarrow> string \<Rightarrow> jsval \<Rightarrow> obj" where
  "replace_prop [] k v = []"
| "replace_prop ((k', v') # kvs) k v =
     (if k' = k then (k, v) # kvs else (k', v') # replace_prop kvs k v)"

fun insert_prop :: "obj \<Rightarrow> string \<Rightarrow> jsval \<Rightarrow> obj" where
  "insert_prop [] k v = [(k, v)]"
| "insert_prop ((k', v') # kvs) k v =
     (if goes_before k k' then (k, v) # (k', v') # kvs else (k', v') # insert_prop kvs k v)"

definition set_prop :: "obj \<Rightarrow> string \<Rightarrow> jsval \<Rightarrow> obj" where
  "set_prop kvs k v =
     (if k \<in> set (map fst kvs) then replace_prop kvs k v else insert_prop kvs k v)"

fun show_nat :: "nat \<Rightarrow> string" where
  "show_nat n =
     (if n < 10 then [char_of (48 + n)]
      else show_nat (n div 10) @ [char_of (48 + n mod 10)])"

text \<open>
  The bytes of a code point, or of a single surrogate, in UTF-8.
\<close>

definition utf8_encode :: "int \<Rightarrow> string" where
  "utf8_encode n =
     (if n < 128 then [char_of n]
      else if n < 2048 then [char_of (192 + n div 64), char_of (128 + n mod 64)]
      else if n < 65536 then
        [char_of (224 + n div 4096), char_of (128 + n div 64 mod 64), char_of (128 + n mod 64)]
      else
        [char_of (240 + n div 262144), char_of (128 + n div 4096 mod 64),
         char_of (128 + n div 64 mod 64), char_of (128 + n mod 64)])"

text \<open>
  The characters of a string as the language indexes them, by UTF-16 code unit: a
  sequence of one to three bytes is one unit, one of four bytes is a pair of surrogates.
\<close>

fun code_units :: "string \<Rightarrow> string list" where
  "code_units [] = []"
| "code_units [a] = [[a]]"
| "code_units [a, b] =
     (if (of_char a :: nat) < 192 then [a] # code_units [b] else [[a, b]])"
| "code_units [a, b, c] =
     (if (of_char a :: nat) < 192 then [a] # code_units [b, c]
      else if (of_char a :: nat) < 224 then [a, b] # code_units [c]
      else [[a, b, c]])"
| "code_units (a # b # c # d # r) =
     (if (of_char a :: nat) < 192 then [a] # code_units (b # c # d # r)
      else if (of_char a :: nat) < 224 then [a, b] # code_units (c # d # r)
      else if (of_char a :: nat) < 240 then [a, b, c] # code_units (d # r)
      else
        (let cp = (of_char a - 240) * 262144 + (of_char b - 128) * 4096
                  + (of_char c - 128) * 64 + (of_char d - 128) - 65536
         in utf8_encode (55296 + cp div 1024) # utf8_encode (56320 + cp mod 1024)
            # code_units r))"

text \<open>
  The own enumerable properties that \<^verbatim>\<open>{...c}\<close> copies: those of an object, the indexed
  elements of an array, the indexed characters of a string, none for the other values.
\<close>

fun own_props :: "jsval \<Rightarrow> obj" where
  "own_props (JObj kvs) = kvs"
| "own_props (JArr xs) = zip (map show_nat [0..<length xs]) xs"
| "own_props (JStr s) =
     zip (map show_nat [0..<length (code_units s)]) (map JStr (code_units s))"
| "own_props _ = []"

text \<open>
  Whether the conversion of a value to a string, as a template literal does it, throws a
  \<^verbatim>\<open>TypeError\<close>. An object is converted by its \<^verbatim>\<open>toString\<close>, then its \<^verbatim>\<open>valueOf\<close>: the
  inherited \<^verbatim>\<open>toString\<close> returns a string, but an own property of that name, which in a
  value from JSON is no function, hides it, and the inherited \<^verbatim>\<open>valueOf\<close> returns the
  object itself, so that no primitive value is reached. An array joins the conversions
  of its elements, \<^verbatim>\<open>null\<close> counting as the empty string. The other values convert.
\<close>

fun to_string_throws :: "jsval \<Rightarrow> bool" where
  "to_string_throws (JObj kvs) = (''toString'' \<in> set (map fst kvs))"
| "to_string_throws (JArr xs) = list_ex to_string_throws xs"
| "to_string_throws _ = False"

section \<open>Library functions of the runtime\<close>

subsection \<open>\<^verbatim>\<open>String.prototype.match\<close> with the pattern of the handler\<close>

text \<open>
  The pattern is \<^verbatim>\<open>/\{[\s\S]*\}/\<close>: an opening brace, any characters (the class \<^verbatim>\<open>[\s\S]\<close>
  holds every character, line ends too), a closing brace. The star is greedy, so from a
  given start the match runs to the last closing brace (\<open>longest_to_brace\<close>); a match
  tries the start positions from the left and keeps the first that succeeds.
  \<open>match_braces s\<close> is \<^verbatim>\<open>m[0]\<close>, or \<open>None\<close> when \<^verbatim>\<open>m\<close> is \<^verbatim>\<open>null\<close>.
\<close>

fun longest_to_brace :: "string \<Rightarrow> string option" where
  "longest_to_brace [] = None"
| "longest_to_brace (c # cs) =
     (case longest_to_brace cs of
        Some u \<Rightarrow> Some (c # u)
      | None \<Rightarrow> if c = CHR ''}'' then Some [c] else None)"

fun match_braces :: "string \<Rightarrow> string option" where
  "match_braces [] = None"
| "match_braces (c # cs) =
     (case (if c = CHR ''{'' then longest_to_brace cs else None) of
        Some u \<Rightarrow> Some (c # u)
      | None \<Rightarrow> match_braces cs)"

subsection \<open>\<^verbatim>\<open>Array.prototype.sort\<close> with the comparator of the handler\<close>

text \<open>
  The comparator is \<^verbatim>\<open>(a, b) => a.unitPrice - b.unitPrice\<close>.
\<close>

definition compare_offers :: "obj \<Rightarrow> obj \<Rightarrow> jsnum" where
  "compare_offers a b =
     js_sub (to_number (obj_get a ''unitPrice'')) (to_number (obj_get b ''unitPrice''))"

text \<open>
  The language defines the sort as stable: \<^verbatim>\<open>a\<close> moves behind \<^verbatim>\<open>b\<close> only when the
  comparator returns a number above zero (a \<open>NaN\<close> counts as zero). With a comparator
  that orders the elements consistently, which lemma \<open>compare_offers_consistent\<close> below
  shows for this one, every conforming engine returns the same array; the model is
  insertion sort, inserting the elements from the last to the first.
\<close>

fun insert_offer :: "obj \<Rightarrow> obj list \<Rightarrow> obj list" where
  "insert_offer x [] = [x]"
| "insert_offer x (y # ys) =
     (if js_lt (Fin 0) (compare_offers x y) then y # insert_offer x ys else x # y # ys)"

definition array_sort :: "obj list \<Rightarrow> obj list" where
  "array_sort xs = foldr insert_offer xs []"

subsection \<open>A reference \<^verbatim>\<open>JSON.parse\<close>\<close>

text \<open>
  The handler is modelled over any parser (the field \<open>parse\<close> of the environment
  below), and the general theorems hold for every parser. The concrete runs in this theory
  use \<open>json_parse\<close>, which follows the JSON grammar of the language standard on
  the bytes of a text: white space, the three literals, numbers (rounded to the nearest
  double), strings with their escapes, arrays and objects (a repeated key keeps its
  place and takes the last value). An escape \<^verbatim>\<open>\uXXXX\<close> stands for a code unit and is
  written in UTF-8; a high surrogate followed by a low one is one code point of four
  bytes (\<open>merge_surrogates\<close>). \<open>None\<close> is the \<^verbatim>\<open>SyntaxError\<close>.
\<close>

definition is_ws :: "char \<Rightarrow> bool" where
  "is_ws c = (c = CHR 0x20 \<or> c = CHR 0x09 \<or> c = CHR 0x0A \<or> c = CHR 0x0D)"

definition skip_ws :: "string \<Rightarrow> string" where
  "skip_ws s = dropWhile is_ws s"

definition hex_digit :: "char \<Rightarrow> int option" where
  "hex_digit c =
     (let n = (of_char c :: int)
      in if 48 \<le> n \<and> n \<le> 57 then Some (n - 48)
         else if 97 \<le> n \<and> n \<le> 102 then Some (n - 87)
         else if 65 \<le> n \<and> n \<le> 70 then Some (n - 55)
         else None)"

fun hex_value :: "int \<Rightarrow> string \<Rightarrow> int option" where
  "hex_value a [] = Some a"
| "hex_value a (c # cs) =
     (case hex_digit c of None \<Rightarrow> None | Some d \<Rightarrow> hex_value (16 * a + d) cs)"

definition unescape :: "char \<Rightarrow> char option" where
  "unescape e =
     (if e = CHR 0x22 \<or> e = CHR 0x5C \<or> e = CHR ''/'' then Some e
      else if e = CHR ''b'' then Some (CHR 0x08)
      else if e = CHR ''f'' then Some (CHR 0x0C)
      else if e = CHR ''n'' then Some (CHR 0x0A)
      else if e = CHR ''r'' then Some (CHR 0x0D)
      else if e = CHR ''t'' then Some (CHR 0x09)
      else None)"

definition cons_chars :: "string \<Rightarrow> (string \<times> string) option \<Rightarrow> (string \<times> string) option" where
  "cons_chars cs r = (case r of None \<Rightarrow> None | Some (s, rest) \<Rightarrow> Some (cs @ s, rest))"

text \<open>The characters of a string after its opening quote, and the text after its closing quote.\<close>

fun parse_chars :: "string \<Rightarrow> (string \<times> string) option" where
  "parse_chars [] = None"
| "parse_chars (c # cs) =
     (if c = CHR 0x22 then Some ([], cs)
      else if c = CHR 0x5C then
        (case cs of
           [] \<Rightarrow> None
         | e # r \<Rightarrow>
             if e = CHR ''u'' then
               (if length r < 4 then None
                else
                  (case hex_value 0 (take 4 r) of
                     None \<Rightarrow> None
                   | Some n \<Rightarrow> cons_chars (utf8_encode n) (parse_chars (drop 4 r))))
             else (case unescape e of
                     None \<Rightarrow> None
                   | Some x \<Rightarrow> cons_chars [x] (parse_chars r)))
      else if (of_char c :: nat) < 32 then None
      else cons_chars [c] (parse_chars cs))"

text \<open>
  The two surrogates of a pair, each written in three bytes by the escapes, are the four
  bytes of their code point.
\<close>

fun merge_surrogates :: "string \<Rightarrow> string" where
  "merge_surrogates (a # b # c # d # e # f # r) =
     (if a = CHR 0xED \<and> 160 \<le> (of_char b :: nat) \<and> (of_char b :: nat) < 176
         \<and> d = CHR 0xED \<and> 176 \<le> (of_char e :: nat) \<and> (of_char e :: nat) < 192
      then utf8_encode (65536 + ((of_char b - 160) * 64 + (of_char c - 128)) * 1024
                          + (of_char e - 176) * 64 + (of_char f - 128))
           @ merge_surrogates r
      else a # merge_surrogates (b # c # d # e # f # r))"
| "merge_surrogates s = s"

text \<open>
  A number: an optional minus, an integer part without a leading zero, an optional
  fraction, an optional exponent.
\<close>

definition parse_sign :: "string \<Rightarrow> bool \<times> string" where
  "parse_sign s =
     (case s of
        [] \<Rightarrow> (False, s)
      | c # r \<Rightarrow> if c = CHR ''-'' then (True, r) else (False, s))"

definition parse_int_part :: "string \<Rightarrow> string" where
  "parse_int_part s =
     (case s of
        [] \<Rightarrow> []
      | c # r \<Rightarrow> if c = CHR ''0'' then [c] else takeWhile is_digit s)"

definition parse_fraction :: "string \<Rightarrow> (string \<times> string) option" where
  "parse_fraction s =
     (case s of
        [] \<Rightarrow> Some ([], s)
      | c # r \<Rightarrow>
          if c = CHR ''.'' then
            (if takeWhile is_digit r = [] then None
             else Some (takeWhile is_digit r, dropWhile is_digit r))
          else Some ([], s))"

definition parse_exponent :: "string \<Rightarrow> (int \<times> string) option" where
  "parse_exponent s =
     (case s of
        [] \<Rightarrow> Some (0, s)
      | c # r \<Rightarrow>
          if c = CHR ''e'' \<or> c = CHR ''E'' then
            (let (neg, r1) =
                   (case r of
                      [] \<Rightarrow> (False, r)
                    | d # r' \<Rightarrow> if d = CHR ''-'' then (True, r')
                               else if d = CHR ''+'' then (False, r') else (False, r));
                 ds = takeWhile is_digit r1
             in if ds = [] then None
                else Some (if neg then - digits_value ds else digits_value ds,
                           dropWhile is_digit r1))
          else Some (0, s))"

definition parse_number :: "string \<Rightarrow> (jsval \<times> string) option" where
  "parse_number s =
     (let (neg, s1) = parse_sign s;
          ip = parse_int_part s1
      in if ip = [] then None
         else
           (case parse_fraction (drop (length ip) s1) of
              None \<Rightarrow> None
            | Some (fp, s2) \<Rightarrow>
                (case parse_exponent s2 of
                   None \<Rightarrow> None
                 | Some (ex, s3) \<Rightarrow>
                     let v = (of_int (digits_value ip)
                              + of_int (digits_value fp) / 10 ^ length fp) * 10 powi ex
                     in Some (JNum (fl (if neg then - v else v)), s3))))"

definition parse_literal :: "string \<Rightarrow> (jsval \<times> string) option" where
  "parse_literal s =
     (if take 4 s = ''true'' then Some (JBool True, drop 4 s)
      else if take 5 s = ''false'' then Some (JBool False, drop 5 s)
      else if take 4 s = ''null'' then Some (JNull, drop 4 s)
      else parse_number s)"

text \<open>
  Values, the elements of an array after its opening bracket and the members of an object
  after its opening brace. The first argument bounds the number of nested calls; every
  call follows the reading of at least one character, so the length of the text is enough.
\<close>

fun parse_value :: "nat \<Rightarrow> string \<Rightarrow> (jsval \<times> string) option"
  and parse_elements :: "nat \<Rightarrow> jsval list \<Rightarrow> string \<Rightarrow> (jsval \<times> string) option"
  and parse_members :: "nat \<Rightarrow> obj \<Rightarrow> string \<Rightarrow> (jsval \<times> string) option"
where
  "parse_value 0 s = None"
| "parse_value (Suc n) s =
     (case skip_ws s of
        [] \<Rightarrow> None
      | c # r \<Rightarrow>
          if c = CHR ''['' then
            (case skip_ws r of
               [] \<Rightarrow> None
             | d # r' \<Rightarrow> if d = CHR '']'' then Some (JArr [], r') else parse_elements n [] r)
          else if c = CHR ''{'' then
            (case skip_ws r of
               [] \<Rightarrow> None
             | d # r' \<Rightarrow> if d = CHR ''}'' then Some (JObj [], r') else parse_members n [] r)
          else if c = CHR 0x22 then
            (case parse_chars r of
               None \<Rightarrow> None
             | Some (str, r') \<Rightarrow> Some (JStr (merge_surrogates str), r'))
          else parse_literal (c # r))"
| "parse_elements 0 acc s = None"
| "parse_elements (Suc n) acc s =
     (case parse_value n s of
        None \<Rightarrow> None
      | Some (v, r) \<Rightarrow>
          (case skip_ws r of
             [] \<Rightarrow> None
           | d # r' \<Rightarrow>
               if d = CHR '','' then parse_elements n (acc @ [v]) r'
               else if d = CHR '']'' then Some (JArr (acc @ [v]), r')
               else None))"
| "parse_members 0 acc s = None"
| "parse_members (Suc n) acc s =
     (case skip_ws s of
        [] \<Rightarrow> None
      | q # r \<Rightarrow>
          if q \<noteq> CHR 0x22 then None
          else
            (case parse_chars r of
               None \<Rightarrow> None
             | Some (k, r1) \<Rightarrow>
                 (case skip_ws r1 of
                    [] \<Rightarrow> None
                  | c # r2 \<Rightarrow>
                      if c \<noteq> CHR '':'' then None
                      else
                        (case parse_value n r2 of
                           None \<Rightarrow> None
                         | Some (v, r3) \<Rightarrow>
                             (case skip_ws r3 of
                                [] \<Rightarrow> None
                              | d # r4 \<Rightarrow>
                                  if d = CHR '','' then
                                    parse_members n (set_prop acc (merge_surrogates k) v) r4
                                  else if d = CHR ''}'' then
                                    Some (JObj (set_prop acc (merge_surrogates k) v), r4)
                                  else None)))))"

definition json_parse :: "string \<Rightarrow> jsval option" where
  "json_parse s =
     (case parse_value (Suc (length s)) s of
        None \<Rightarrow> None
      | Some (v, r) \<Rightarrow> if skip_ws r = [] then Some v else None)"

section \<open>The handler of \<^verbatim>\<open>POST /api/find-and-buy\<close>\<close>

subsection \<open>What the handler exchanges with the outside\<close>

text \<open>
  The completion call either rejects or resolves to a reply, of which the handler reads
  \<^verbatim>\<open>chat.choices?.[0]?.message?.content\<close>: a string, or nothing (\<^verbatim>\<open>null\<close>, or \<^verbatim>\<open>undefined\<close>
  when a link of the chain is missing). The call to the automation service either rejects
  or resolves to a response with its \<^verbatim>\<open>ok\<close> flag and a body, whose text may fail to be
  read (\<open>None\<close>). An outcome is the list of the outbound calls made, in order, and the
  response sent: the status and the value given to \<^verbatim>\<open>res.json\<close>.

  The text of the two prompts is not modelled: a call is recorded with the values
  that the handler interpolates into it, the query for the completion, and
  \<^verbatim>\<open>best.productUrl\<close> and the query for the automation task. The query is a string when
  it is interpolated; \<^verbatim>\<open>best.productUrl\<close> is any value, and its conversion to a string
  can throw (\<open>to_string_throws\<close>), before the automation service is called.
\<close>

datatype completion = ChatRejected | ChatContent "string option"

datatype fetch_result = FetchRejected | FetchResponse bool "string option"

datatype upcall = CompletionCall jsval | AutomationCall jsval jsval

record env =
  parse :: "string \<Rightarrow> jsval option"
  chat_create :: "jsval \<Rightarrow> completion"
  fetch_task :: "jsval \<Rightarrow> jsval \<Rightarrow> fetch_result"

record outcome =
  calls :: "upcall list"
  status :: nat
  body :: jsval

definition error_body :: "string \<Rightarrow> jsval" where
  "error_body msg = JObj [(''error'', JStr msg)]"

text \<open>The outer \<^verbatim>\<open>catch\<close>: whatever is thrown inside the handler ends here.\<close>

definition server_error :: "upcall list \<Rightarrow> outcome" where
  "server_error cl = \<lparr>calls = cl, status = 500, body = error_body ''Server error''\<rparr>"

subsection \<open>Normalising the completion (lines 67 to 75)\<close>

text \<open>
  \<^verbatim>\<open>raw = content || "[]"\<close>, then \<^verbatim>\<open>JSON.parse(raw)\<close>, then the array itself or
  \<^verbatim>\<open>parsed.items || parsed.results || []\<close>; anything thrown on the way (by the parser,
  or by reading a property of \<^verbatim>\<open>null\<close>) leaves the empty array.
\<close>

definition candidates_of :: "(string \<Rightarrow> jsval option) \<Rightarrow> string option \<Rightarrow> jsval" where
  "candidates_of P content =
     (let raw = (case content of None \<Rightarrow> ''[]'' | Some s \<Rightarrow> if s = [] then ''[]'' else s)
      in case P raw of
           None \<Rightarrow> JArr []
         | Some parsed \<Rightarrow>
             if array_isArray parsed then parsed
             else
               (case get_prop parsed ''items'' of
                  None \<Rightarrow> JArr []
                | Some items \<Rightarrow>
                    if truthy items then items
                    else
                      (case get_prop parsed ''results'' of
                         None \<Rightarrow> JArr []
                       | Some results \<Rightarrow> if truthy results then results else JArr [])))"

subsection \<open>The best offer (lines 82 to 89)\<close>

text \<open>
  The predicate of the filter,
  \<^verbatim>\<open>Number.isFinite(c.basePrice) && Number.isFinite(c.packSize) && c.packSize > 0\<close>;
  \<open>None\<close> when reading \<^verbatim>\<open>c.basePrice\<close> throws, which is when \<^verbatim>\<open>c\<close> is \<^verbatim>\<open>null\<close>. Reading
  a field of any other value neither throws nor has an effect, so the model reads both
  fields before it combines the three tests.
\<close>

definition qualifies :: "jsval \<Rightarrow> bool option" where
  "qualifies c =
     (case get_prop c ''basePrice'' of
        None \<Rightarrow> None
      | Some basePrice \<Rightarrow>
          (case get_prop c ''packSize'' of
             None \<Rightarrow> None
           | Some packSize \<Rightarrow>
               Some (number_isFinite basePrice \<and> number_isFinite packSize
                     \<and> js_lt (Fin 0) (to_number packSize))))"

text \<open>The function of the map, \<^verbatim>\<open>c => ({ ...c, unitPrice: c.basePrice / c.packSize })\<close>.\<close>

definition with_unit :: "jsval \<Rightarrow> obj option" where
  "with_unit c =
     (case get_prop c ''basePrice'' of
        None \<Rightarrow> None
      | Some basePrice \<Rightarrow>
          (case get_prop c ''packSize'' of
             None \<Rightarrow> None
           | Some packSize \<Rightarrow>
               Some (set_prop (own_props c) ''unitPrice''
                       (JNum (js_div (to_number basePrice) (to_number packSize))))))"

fun filter_offers :: "jsval list \<Rightarrow> jsval list option" where
  "filter_offers [] = Some []"
| "filter_offers (c # cs) =
     (case qualifies c of
        None \<Rightarrow> None
      | Some keep \<Rightarrow>
          (case filter_offers cs of
             None \<Rightarrow> None
           | Some rest \<Rightarrow> Some (if keep then c # rest else rest)))"

fun map_offers :: "jsval list \<Rightarrow> obj list option" where
  "map_offers [] = Some []"
| "map_offers (c # cs) =
     (case with_unit c of
        None \<Rightarrow> None
      | Some scored \<Rightarrow>
          (case map_offers cs of
             None \<Rightarrow> None
           | Some rest \<Rightarrow> Some (scored # rest)))"

definition withUnits :: "jsval list \<Rightarrow> obj list option" where
  "withUnits candidates =
     (case filter_offers candidates of
        None \<Rightarrow> None
      | Some kept \<Rightarrow> map_offers kept)"

text \<open>
  The three ways the selection ends: something was thrown, no candidate was left, or
  the ranked array with \<^verbatim>\<open>best = withUnits[0]\<close>.
\<close>

datatype selection = Threw | NoneValid | Selected "obj list" jsval

definition best_offer_selector :: "jsval list \<Rightarrow> selection" where
  "best_offer_selector candidates =
     (case withUnits candidates of
        None \<Rightarrow> Threw
      | Some wu \<Rightarrow>
          if length wu = 0 then NoneValid
          else
            (let ranked = array_sort wu
             in Selected ranked (case ranked of [] \<Rightarrow> JUndefined | best # _ \<Rightarrow> JObj best)))"

subsection \<open>Normalising the automation reply (lines 128 to 144)\<close>

text \<open>\<^verbatim>\<open>buJson?.result ?? buJson?.data ?? buJson\<close>.\<close>

definition unwrap_reply :: "jsval \<Rightarrow> jsval" where
  "unwrap_reply buJson =
     (if \<not> nullish (opt_prop buJson ''result'') then opt_prop buJson ''result''
      else if \<not> nullish (opt_prop buJson ''data'') then opt_prop buJson ''data''
      else buJson)"

text \<open>
  The string case, \<^verbatim>\<open>m ? JSON.parse(m[0]) : { raw: checkout }\<close>; \<open>None\<close> when the parser
  throws.
\<close>

definition recover_json :: "(string \<Rightarrow> jsval option) \<Rightarrow> string \<Rightarrow> jsval option" where
  "recover_json P s =
     (case match_braces s of
        None \<Rightarrow> Some (JObj [(''raw'', JStr s)])
      | Some m0 \<Rightarrow> P m0)"

text \<open>
  The whole \<^verbatim>\<open>try\<close> block with its \<^verbatim>\<open>catch\<close>: \<^verbatim>\<open>buResp.json()\<close> rejects when the body cannot
  be read or is not JSON.
\<close>

definition checkout_of :: "(string \<Rightarrow> jsval option) \<Rightarrow> string option \<Rightarrow> jsval" where
  "checkout_of P body_text =
     (case body_text of
        None \<Rightarrow> JObj []
      | Some txt \<Rightarrow>
          (case P txt of
             None \<Rightarrow> JObj []
           | Some buJson \<Rightarrow>
               (case unwrap_reply buJson of
                  JStr s \<Rightarrow> (case recover_json P s of None \<Rightarrow> JObj [] | Some v \<Rightarrow> v)
                | checkout \<Rightarrow> checkout)))"

subsection \<open>The handler\<close>

text \<open>
  The handler in three parts: the validation of the request and the completion call
  (\<open>find_and_buy\<close>, lines 39 to 64), the guard on the candidates, the selection and
  the instructions (\<open>select_and_verify\<close>, lines 77 to 105), and the automation call with the response
  (\<open>verify_checkout\<close>, lines 107 to 151). Every \<open>None\<close> of a property read is a
  \<^verbatim>\<open>TypeError\<close> that the outer \<^verbatim>\<open>catch\<close> turns into the response 500; a rejected call of a
  service ends there too.
\<close>

definition verify_checkout :: "env \<Rightarrow> jsval \<Rightarrow> obj list \<Rightarrow> jsval \<Rightarrow> jsval \<Rightarrow> outcome" where
  "verify_checkout E query ranked best url =
     (let cl = [CompletionCall query, AutomationCall url query]
      in case fetch_task E url query of
           FetchRejected \<Rightarrow> server_error cl
         | FetchResponse ok body_text \<Rightarrow>
             if \<not> ok then
               \<lparr>calls = cl, status = 502,
                body = JObj [(''error'', JStr ''Browser-use request failed''),
                             (''details'', JStr (case body_text of None \<Rightarrow> [] | Some txt \<Rightarrow> txt))]\<rparr>
             else
               \<lparr>calls = cl, status = 200,
                body = JObj [(''query'', query),
                             (''candidates'', JArr (map JObj ranked)),
                             (''best'', best),
                             (''checkout'', checkout_of (parse E) body_text)]\<rparr>)"

definition select_and_verify :: "env \<Rightarrow> jsval \<Rightarrow> jsval \<Rightarrow> outcome" where
  "select_and_verify E query candidates =
     (if \<not> array_isArray candidates \<or> length (elements candidates) = 0 then
        \<lparr>calls = [CompletionCall query], status = 502,
         body = error_body ''LLM returned no candidates''\<rparr>
      else
        (case best_offer_selector (elements candidates) of
           Threw \<Rightarrow> server_error [CompletionCall query]
         | NoneValid \<Rightarrow>
             \<lparr>calls = [CompletionCall query], status = 502,
              body = error_body ''Candidates missing price/packSize''\<rparr>
         | Selected ranked best \<Rightarrow>
             (case get_prop best ''productUrl'' of
                None \<Rightarrow> server_error [CompletionCall query]
              | Some url \<Rightarrow>
                  if to_string_throws url then server_error [CompletionCall query]
                  else verify_checkout E query ranked best url)))"

definition find_and_buy :: "env \<Rightarrow> jsval \<Rightarrow> outcome" where
  "find_and_buy E req_body =
     (case get_prop (if truthy req_body then req_body else JObj []) ''query'' of
        None \<Rightarrow> server_error []
      | Some query \<Rightarrow>
          if \<not> truthy query \<or> js_typeof query \<noteq> ''string'' then
            \<lparr>calls = [], status = 400, body = error_body ''Missing 'query' string''\<rparr>
          else
            (case chat_create E query of
               ChatRejected \<Rightarrow> server_error [CompletionCall query]
             | ChatContent content \<Rightarrow>
                 select_and_verify E query (candidates_of (parse E) content)))"

section \<open>Notions the statements use\<close>

text \<open>The Number that the comparator reads off a scored offer, \<^verbatim>\<open>a.unitPrice\<close>.\<close>

definition unit_price :: "obj \<Rightarrow> jsnum" where
  "unit_price offer = to_number (obj_get offer ''unitPrice'')"

text \<open>
  The condition of the specification on a raw offer, in its words: \<^verbatim>\<open>basePrice\<close> is a
  finite number, and \<^verbatim>\<open>packSize\<close> is a finite number strictly greater than zero. A field
  that is missing reads as \<^verbatim>\<open>undefined\<close>. The filter of the handler is \<open>qualifies\<close>
  above; that the two agree is proved below (\<open>qualifies_valid_offer\<close>).
\<close>

definition valid_offer :: "jsval \<Rightarrow> bool" where
  "valid_offer c =
     (case opt_prop c ''basePrice'' of
        JNum (Fin b) \<Rightarrow> (case opt_prop c ''packSize'' of JNum (Fin p) \<Rightarrow> 0 < p | _ \<Rightarrow> False)
      | _ \<Rightarrow> False)"

text \<open>
  The Numbers other than \<open>NaN\<close> in their order, as pairs under the lexicographic order:
  the sort of the handler is compared with the library's insertion sort on this key.
\<close>

fun rank_of :: "jsnum \<Rightarrow> nat \<times> rat" where
  "rank_of NegInf = (0, 0)"
| "rank_of (Fin r) = (1, r)"
| "rank_of PosInf = (2, 0)"
| "rank_of NaN = (3, 0)"

section \<open>Concrete runs\<close>

text \<open>
  An environment whose parser is \<open>json_parse\<close> and whose two services answer every call
  with a fixed reply, and the inputs of the runs evaluated below.
  \<open>json_string_literal s\<close> is the JSON text of the string \<open>s\<close>: quotes around it, a
  backslash before each quote and backslash inside.
\<close>

definition stub_env :: "string \<Rightarrow> bool \<Rightarrow> string \<Rightarrow> env" where
  "stub_env content ok body_text =
     \<lparr>parse = json_parse,
      chat_create = (\<lambda>_. ChatContent (Some content)),
      fetch_task = (\<lambda>_ _. FetchResponse ok (Some body_text))\<rparr>"


definition diapers :: jsval where
  "diapers = JObj [(''query'', JStr ''Huggies baby diaper size 4'')]"

definition example_offers :: "jsval list" where
  "example_offers =
     [JObj [(''retailer'', JStr ''A''), (''basePrice'', JNum (Fin 40)), (''packSize'', JNum (Fin 100))],
      JObj [(''retailer'', JStr ''B''), (''basePrice'', JNum (Fin 40)), (''packSize'', JNum (Fin 0))],
      JObj [(''retailer'', JStr ''C''), (''basePrice'', JNum (Fin 15)), (''packSize'', JNum (Fin 50))],
      JStr ''junk'',
      JObj [(''retailer'', JStr ''D''), (''basePrice'', JNum (Fin 20)), (''packSize'', JNum (Fin 50))]]"

definition spec_offers :: "jsval list" where
  "spec_offers =
     [JObj [(''basePrice'', JNum (Fin 30)), (''packSize'', JNum (Fin 100))],
      JObj [(''basePrice'', JNum (Fin 20)), (''packSize'', JNum (Fin 50))]]"


definition one_offer :: string where
  \<open>one_offer = ''[{"basePrice":20,"packSize":50,"productUrl":"https://shop/p"}]''\<close>

definition wrapped_offer :: string where
  \<open>wrapped_offer = ''{"items":[{"basePrice":20,"packSize":50,"productUrl":"https://shop/p"}]}''\<close>

definition results_wrapped_offer :: string where
  \<open>results_wrapped_offer =
     ''{"items":null,"results":[{"basePrice":20,"packSize":50,"productUrl":"https://shop/p"}]}''\<close>

definition the_offer :: jsval where
  "the_offer = JObj [(''basePrice'', JNum (Fin 20)), (''packSize'', JNum (Fin 50)),
                     (''productUrl'', JStr ''https://shop/p'')]"

section \<open>Rounding\<close>

text \<open>\<open>ilog2\<close> is the floor of the binary logarithm: the two bounds.\<close>

lemma ilog2_lower:
  assumes "0 < x"
  shows "2 powi (ilog2 x) \<le> x"
proof -
  obtain p q where pq: "quotient_of x = (p, q)" by (cases "quotient_of x")
  have q: "0 < q" using pq quotient_of_denom_pos by blast
  have x: "x = of_int p / of_int q" using pq quotient_of_div by blast
  have p: "0 < p" using assms q x by (simp add: zero_less_divide_iff)
  let ?k = "bitlen p - bitlen q"
  show ?thesis
  proof (cases "(2::rat) powi ?k \<le> x")
    case True
    then show ?thesis by (simp add: ilog2_def pq)
  next
    case False
    have bp: "2 ^ nat (bitlen p - 1) \<le> p" using bitlen_bounds[OF p] by simp
    have bq: "q < 2 ^ nat (bitlen q)" using bitlen_bounds[OF q] by simp
    have bp1: "1 \<le> bitlen p" using p bitlen_eq_zero_iff[of p] bitlen_nonneg[of p] by linarith
    have bq0: "0 \<le> bitlen q" by (rule bitlen_nonneg)
    have "(2::rat) powi (?k - 1) = 2 powi (bitlen p - 1) / 2 powi (bitlen q)"
      by (simp add: power_int_diff)
    also have "\<dots> = 2 ^ nat (bitlen p - 1) / 2 ^ nat (bitlen q)"
      using bp1 bq0 by (simp add: power_int_def)
    also have "\<dots> \<le> of_int p / 2 ^ nat (bitlen q)"
    proof -
      have "(of_int (2 ^ nat (bitlen p - 1)) :: rat) \<le> of_int p"
        using bp by (simp only: of_int_le_iff)
      then show ?thesis by (simp add: divide_right_mono)
    qed
    also have "\<dots> \<le> of_int p / of_int q"
    proof -
      have "(of_int q :: rat) \<le> of_int (2 ^ nat (bitlen q))"
        using bq by (simp only: of_int_le_iff)
      then show ?thesis using p q by (simp add: frac_le)
    qed
    finally have "(2::rat) powi (?k - 1) \<le> x" using x by simp
    with False show ?thesis by (simp add: ilog2_def pq)
  qed
qed

lemma ilog2_upper:
  assumes "0 < x"
  shows "x < 2 powi (ilog2 x + 1)"
proof -
  obtain p q where pq: "quotient_of x = (p, q)" by (cases "quotient_of x")
  have q: "0 < q" using pq quotient_of_denom_pos by blast
  have x: "x = of_int p / of_int q" using pq quotient_of_div by blast
  have p: "0 < p" using assms q x by (simp add: zero_less_divide_iff)
  let ?k = "bitlen p - bitlen q"
  show ?thesis
  proof (cases "(2::rat) powi ?k \<le> x")
    case False
    then show ?thesis by (simp add: ilog2_def pq)
  next
    case True
    have bp: "p < 2 ^ nat (bitlen p)" using bitlen_bounds[OF p] by simp
    have bq: "2 ^ nat (bitlen q - 1) \<le> q" using bitlen_bounds[OF q] by simp
    have bq1: "1 \<le> bitlen q" using q bitlen_eq_zero_iff[of q] bitlen_nonneg[of q] by linarith
    have bp0: "0 \<le> bitlen p" by (rule bitlen_nonneg)
    have "x < 2 ^ nat (bitlen p) / of_int q"
    proof -
      have "(of_int p :: rat) < of_int (2 ^ nat (bitlen p))"
        using bp by (simp only: of_int_less_iff)
      then show ?thesis unfolding x using q by (simp add: divide_strict_right_mono)
    qed
    also have "\<dots> \<le> 2 ^ nat (bitlen p) / 2 ^ nat (bitlen q - 1)"
    proof -
      have "(of_int (2 ^ nat (bitlen q - 1)) :: rat) \<le> of_int q"
        using bq by (simp only: of_int_le_iff)
      then show ?thesis by (simp add: frac_le)
    qed
    also have "\<dots> = 2 powi (bitlen p) / 2 powi (bitlen q - 1)"
      using bq1 bp0 by (simp add: power_int_def)
    also have "\<dots> = (2::rat) powi (bitlen p - (bitlen q - 1))"
      by (rule power_int_diff[symmetric]) simp
    also have "bitlen p - (bitlen q - 1) = ?k + 1" by simp
    finally show ?thesis using True by (simp add: ilog2_def pq)
  qed
qed

lemma round_half_even_ge: "\<lfloor>y\<rfloor> \<le> round_half_even y"
  by (simp add: round_half_even_def Let_def)

lemma round_half_even_pos: "1 \<le> y \<Longrightarrow> 1 \<le> round_half_even y"
proof -
  assume "1 \<le> y"
  then have "1 \<le> \<lfloor>y\<rfloor>" by simp
  then show ?thesis using round_half_even_ge[of y] by linarith
qed

lemma fl_scaled_ge_one:
  assumes "2 powi (- 1074) \<le> a"
  shows "1 \<le> a / 2 powi (max (ilog2 a - 52) (- 1074))"
proof -
  have "(0::rat) < 2 powi (- 1074)" by (rule zero_less_power_int) simp
  then have a: "0 < a" using assms by (rule less_le_trans)
  let ?e = "max (ilog2 a - 52) (- 1074)"
  have "(2::rat) powi ?e \<le> a"
  proof (cases "ilog2 a - 52 \<le> - 1074")
    case True
    then have "?e = - 1074" by (simp only: max_def if_True)
    then show ?thesis using assms by (simp only:)
  next
    case False
    then have e: "?e = ilog2 a - 52" by (simp only: max_def if_False)
    have "(2::rat) powi (ilog2 a - 52) \<le> 2 powi (ilog2 a)"
      by (rule power_int_increasing) simp_all
    then show ?thesis using ilog2_lower[OF a] unfolding e by (rule order_trans)
  qed
  moreover have "(0::rat) < 2 powi ?e" by (rule zero_less_power_int) simp
  ultimately show ?thesis by (simp only: le_divide_eq mult_1 if_True)
qed

lemma fl_positive:
  assumes "2 powi (- 1074) \<le> x"
  shows "fl x = PosInf \<or> (\<exists>r. fl x = Fin r \<and> 0 < r)"
proof -
  have "(0::rat) < 2 powi (- 1074)" by (rule zero_less_power_int) simp
  then have x: "0 < x" using assms by (rule less_le_trans)
  define e where "e = max (ilog2 x - 52) (- 1074)"
  define m where "m = round_half_even (x / 2 powi e)"
  have "1 \<le> m" unfolding m_def e_def using fl_scaled_ge_one[OF assms] by (rule round_half_even_pos)
  moreover have "(0::rat) < 2 powi e" by (rule zero_less_power_int) simp
  ultimately have pos: "(0::rat) < of_int m * 2 powi e" by (simp add: zero_less_mult_iff)
  have "fl x = (if 1024 < bitlen m + e then PosInf else Fin (of_int m * 2 powi e))"
    using x unfolding fl_def Let_def m_def e_def by (simp only: abs_of_pos if_True if_False less_irrefl[of 0] order.strict_implies_not_eq[OF x, symmetric])
  then show ?thesis using pos by (cases "1024 < bitlen m + e") (simp_all only: if_True if_False jsnum.inject, blast+)
qed

lemma fl_uminus:
  "fl (- x) = (case fl x of Fin r \<Rightarrow> Fin (- r) | PosInf \<Rightarrow> NegInf | NegInf \<Rightarrow> PosInf | NaN \<Rightarrow> NaN)"
proof -
  consider "x = 0" | "0 < x" | "x < 0" by linarith
  then show ?thesis
  proof cases
    case 1
    then show ?thesis by (simp add: fl_def)
  next
    case 2
    then have "\<not> 0 < - x" "- x \<noteq> 0" "x \<noteq> 0" by simp_all
    then show ?thesis using 2 unfolding fl_def Let_def
      by (simp only: abs_minus_cancel if_True if_False jsnum.case split: if_splits) simp
  next
    case 3
    then have "0 < - x" "- x \<noteq> 0" "x \<noteq> 0" "\<not> 0 < x" by simp_all
    then show ?thesis unfolding fl_def Let_def
      by (simp only: abs_minus_cancel if_True if_False jsnum.case split: if_splits) simp
  qed
qed

lemma fl_on_grid:
  assumes "fl x = Fin r"
  shows "\<exists>k::int. r = of_int k * 2 powi (- 1074)"
proof (cases "x = 0")
  case True
  then have "r = 0" using assms by (simp add: fl_def)
  then have "r = of_int 0 * 2 powi (- 1074)" by (simp only: of_int_0 mult_zero_left)
  then show ?thesis by blast
next
  case False
  define e where "e = max (ilog2 \<bar>x\<bar> - 52) (- 1074)"
  define m where "m = round_half_even (\<bar>x\<bar> / 2 powi e)"
  have e: "0 \<le> e + 1074" unfolding e_def by simp
  have "(2::rat) powi e = 2 powi ((e + 1074) + (- 1074))" by simp
  also have "\<dots> = 2 powi (e + 1074) * 2 powi (- 1074)"
    by (rule power_int_add) simp
  also have "(2::rat) powi (e + 1074) = of_int (2 ^ nat (e + 1074))"
    using e by (simp add: power_int_def)
  finally have pw: "(2::rat) powi e = of_int (2 ^ nat (e + 1074)) * 2 powi (- 1074)" .
  have "r = of_int m * 2 powi e \<or> r = - (of_int m * 2 powi e)"
    using assms False unfolding fl_def Let_def m_def e_def
    by (simp only: if_False split: if_splits) (simp_all only: jsnum.inject jsnum.distinct, blast+)
  then have "r = of_int (m * 2 ^ nat (e + 1074)) * 2 powi (- 1074)
     \<or> r = of_int (- (m * 2 ^ nat (e + 1074))) * 2 powi (- 1074)"
    unfolding pw by (simp only: of_int_mult of_int_minus mult.assoc mult_minus_left)
  then show ?thesis by blast
qed

lemma fl_sub_sign:
  assumes "fl x = Fin a" "fl y = Fin b"
  shows "js_lt (Fin 0) (fl (a - b)) \<longleftrightarrow> b < a"
proof -
  define u where "u = (2::rat) powi (- 1074)"
  have u: "0 < u" unfolding u_def by (rule zero_less_power_int) simp
  obtain ka kb :: int where a: "a = of_int ka * u" and b: "b = of_int kb * u"
    using fl_on_grid[OF assms(1)] fl_on_grid[OF assms(2)] unfolding u_def by blast
  have d: "a - b = of_int (ka - kb) * u" by (simp add: a b algebra_simps)
  have d': "b - a = of_int (kb - ka) * u" by (simp add: a b algebra_simps)
  consider "b < a" | "a = b" | "a < b" by linarith
  then show ?thesis
  proof cases
    case 1
    then have "0 < a - b" by simp
    then have "0 < (of_int (ka - kb) :: rat) * u" unfolding d .
    then have "0 < (of_int (ka - kb) :: rat)" using u by (simp add: zero_less_mult_iff del: of_int_diff)
    then have "0 < ka - kb" by (simp only: of_int_0_less_iff)
    then have "(1::rat) \<le> of_int (ka - kb)" by (simp add: int_one_le_iff_zero_less)
    then have "u \<le> a - b" using u unfolding d by (simp add: mult_le_cancel_right1 del: of_int_diff)
    from fl_positive[OF this[unfolded u_def]] 1 show ?thesis by auto
  next
    case 2
    then show ?thesis by (simp add: fl_def)
  next
    case 3
    then have "0 < b - a" by simp
    then have "0 < (of_int (kb - ka) :: rat) * u" unfolding d' .
    then have "0 < (of_int (kb - ka) :: rat)" using u by (simp add: zero_less_mult_iff del: of_int_diff)
    then have "0 < kb - ka" by (simp only: of_int_0_less_iff)
    then have "(1::rat) \<le> of_int (kb - ka)" by (simp add: int_one_le_iff_zero_less)
    then have "u \<le> b - a" using u unfolding d' by (simp add: mult_le_cancel_right1 del: of_int_diff)
    from fl_positive[OF this[unfolded u_def]]
    have "fl (a - b) = NegInf \<or> (\<exists>r. fl (a - b) = Fin r \<and> r < 0)"
      using fl_uminus[of "b - a"] by auto
    with 3 show ?thesis by auto
  qed
qed

lemma fl_overflow:
  assumes "1 \<le> m"
  shows "1024 < bitlen m + e \<longleftrightarrow> (2::rat) powi 1024 \<le> of_int m * 2 powi e"
proof -
  have m: "0 < m" using assms by simp
  have b1: "1 \<le> bitlen m" using m bitlen_eq_zero_iff[of m] bitlen_nonneg[of m] by linarith
  have lo: "(2::rat) powi (bitlen m - 1) \<le> of_int m"
  proof -
    have "(of_int (2 ^ nat (bitlen m - 1)) :: rat) \<le> of_int m"
      using bitlen_bounds[OF m] by (simp only: of_int_le_iff)
    then show ?thesis using b1 by (simp add: power_int_def)
  qed
  have hi: "(of_int m :: rat) < 2 powi (bitlen m)"
  proof -
    have "(of_int m :: rat) < of_int (2 ^ nat (bitlen m))"
      using bitlen_bounds[OF m] by (simp only: of_int_less_iff)
    then show ?thesis using b1 by (simp add: power_int_def)
  qed
  have pe: "(0::rat) < 2 powi e" by (rule zero_less_power_int) simp
  show ?thesis
  proof
    assume "1024 < bitlen m + e"
    then have "(2::rat) powi 1024 \<le> 2 powi (bitlen m - 1 + e)"
      by (intro power_int_increasing) simp_all
    also have "\<dots> = 2 powi (bitlen m - 1) * 2 powi e" by (rule power_int_add) simp
    also have "\<dots> \<le> of_int m * 2 powi e" using lo pe by (simp only: mult_le_cancel_right_pos)
    finally show "(2::rat) powi 1024 \<le> of_int m * 2 powi e" .
  next
    assume "(2::rat) powi 1024 \<le> of_int m * 2 powi e"
    also have "of_int m * 2 powi e < 2 powi (bitlen m) * (2::rat) powi e"
      using hi pe by (simp only: mult_less_cancel_right_pos)
    also have "\<dots> = 2 powi (bitlen m + e)" by (rule power_int_add[symmetric]) simp
    finally have lt: "(2::rat) powi 1024 < 2 powi (bitlen m + e)" .
    show "1024 < bitlen m + e"
    proof (rule ccontr)
      assume "\<not> 1024 < bitlen m + e"
      then have "bitlen m + e \<le> 1024" by simp
      then have "(2::rat) powi (bitlen m + e) \<le> 2 powi 1024"
        by (intro power_int_increasing) simp_all
      with lt have "(2::rat) powi 1024 < 2 powi 1024" by (rule less_le_trans)
      then show False by (simp only: less_irrefl)
    qed
  qed
qed

lemma fl_not_NaN: "fl x \<noteq> NaN"
  by (simp add: fl_def Let_def)

section \<open>The comparator and the sort\<close>

text \<open>
  On quotients, which are what the map stores, the comparator is consistent: its result
  is above zero exactly when the second unit price is the smaller one. Hence the
  insertion sort of the model is the library's stable sort on the key \<open>rank_of\<close>.
\<close>

lemma compare_rounded:
  "js_lt (Fin 0) (js_sub (fl x) (fl y)) \<longleftrightarrow> rank_of (fl y) < rank_of (fl x)"
proof (cases "fl x")
  case NaN
  then show ?thesis using fl_not_NaN by blast
next
  case NegInf
  then show ?thesis using fl_not_NaN[of y] by (cases "fl y") simp_all
next
  case (Fin a)
  show ?thesis
  proof (cases "fl y")
    case (Fin b)
    then show ?thesis using fl_sub_sign[OF \<open>fl x = Fin a\<close> Fin] \<open>fl x = Fin a\<close> by simp
  qed (use Fin fl_not_NaN[of y] in simp_all)
next
  case PosInf
  then show ?thesis using fl_not_NaN[of y] by (cases "fl y") simp_all
qed

lemma js_lt_rank: "a \<noteq> NaN \<Longrightarrow> b \<noteq> NaN \<Longrightarrow> js_lt a b \<longleftrightarrow> rank_of a < rank_of b"
  by (cases a; cases b) auto

lemma compare_offers_consistent:
  assumes "unit_price a = fl x" "unit_price b = fl y"
  shows "js_lt (Fin 0) (compare_offers a b) \<longleftrightarrow> js_lt (unit_price b) (unit_price a)"
  using compare_rounded[of x y] assms js_lt_rank[of "fl y" "fl x"] fl_not_NaN
  by (simp add: compare_offers_def unit_price_def)

lemma js_le_rank: "a \<noteq> NaN \<Longrightarrow> b \<noteq> NaN \<Longrightarrow> js_le a b \<longleftrightarrow> rank_of a \<le> rank_of b"
  by (cases a; cases b) (auto simp: js_le_def)

lemma insert_offer_insort:
  assumes "\<exists>r. unit_price x = fl r" "\<forall>y\<in>set ys. \<exists>r. unit_price y = fl r"
  shows "insert_offer x ys = insort_key (\<lambda>a. rank_of (unit_price a)) x ys"
  using assms(2)
proof (induction ys)
  case Nil
  then show ?case by simp
next
  case (Cons y ys)
  obtain r s where r: "unit_price x = fl r" and s: "unit_price y = fl s"
    using assms(1) Cons.prems by auto
  have "js_lt (Fin 0) (compare_offers x y) \<longleftrightarrow> \<not> rank_of (unit_price x) \<le> rank_of (unit_price y)"
    using compare_rounded[of r s] r s by (simp add: compare_offers_def unit_price_def not_le)
  then show ?case using Cons by simp
qed

lemma set_insert_offer: "set (insert_offer x ys) = insert x (set ys)"
  by (induction ys) auto

lemma array_sort_sort_key:
  assumes "\<forall>y\<in>set xs. \<exists>r. unit_price y = fl r"
  shows "array_sort xs = sort_key (\<lambda>a. rank_of (unit_price a)) xs"
  using assms
proof (induction xs)
  case Nil
  then show ?case by (simp add: array_sort_def)
next
  case (Cons x xs)
  then have ih: "foldr insert_offer xs [] = sort_key (\<lambda>a. rank_of (unit_price a)) xs"
    by (simp add: array_sort_def)
  have "\<forall>y\<in>set (sort_key (\<lambda>a. rank_of (unit_price a)) xs). \<exists>r. unit_price y = fl r"
    using Cons.prems by simp
  then show ?case using Cons.prems ih
    by (simp add: array_sort_def insert_offer_insort)
qed

lemma array_sort_sorted:
  assumes "\<forall>y\<in>set xs. \<exists>r. unit_price y = fl r"
  shows "sorted_wrt (\<lambda>a b. js_le (unit_price a) (unit_price b)) (array_sort xs)"
proof -
  let ?f = "\<lambda>a. rank_of (unit_price a)"
  have s: "sorted (map ?f (sort_key ?f xs))" by (rule sorted_sort_key)
  have "sorted_wrt (\<lambda>a b. ?f a \<le> ?f b) (sort_key ?f xs)"
    using s by (simp only: sorted_map)
  moreover have "\<forall>a\<in>set (sort_key ?f xs). unit_price a \<noteq> NaN"
    using assms fl_not_NaN by auto
  ultimately have "sorted_wrt (\<lambda>a b. js_le (unit_price a) (unit_price b)) (sort_key ?f xs)"
    by (rule_tac sorted_wrt_mono_rel[rotated]) (auto simp: js_le_rank)
  then show ?thesis using array_sort_sort_key[OF assms] by simp
qed

lemma array_sort_stable:
  assumes "\<forall>y\<in>set xs. \<exists>r. unit_price y = fl r"
  shows "filter (\<lambda>y. unit_price y = k) (array_sort xs) = filter (\<lambda>y. unit_price y = k) xs"
proof -
  let ?f = "\<lambda>a. rank_of (unit_price a)"
  have inj: "\<And>a. (rank_of a = rank_of k) = (a = k)"
    by (case_tac a; cases k) auto
  have "filter (\<lambda>y. ?f y = rank_of k) (sort_key ?f xs) = filter (\<lambda>y. ?f y = rank_of k) xs"
    by (rule sort_key_stable)
  then show ?thesis using array_sort_sort_key[OF assms] by (simp add: inj)
qed

lemma array_sort_mset:
  assumes "\<forall>y\<in>set xs. \<exists>r. unit_price y = fl r"
  shows "mset (array_sort xs) = mset xs"
  using array_sort_sort_key[OF assms] by simp

lemma array_sort_Nil_iff: "array_sort xs = [] \<longleftrightarrow> xs = []"
  by (cases xs) (auto simp: array_sort_def dest: arg_cong[where f = set] simp: set_insert_offer)

section \<open>The filter and the map\<close>

lemma get_prop_opt_prop:
  "c \<noteq> JNull \<Longrightarrow> c \<noteq> JUndefined \<Longrightarrow> get_prop c k = Some (opt_prop c k)"
  by (cases c) (simp_all add: opt_prop_def)

lemma get_prop_None_iff: "get_prop c k = None \<longleftrightarrow> c = JNull \<or> c = JUndefined"
  by (cases c) simp_all

lemma valid_offer_iff:
  "valid_offer c \<longleftrightarrow>
     (\<exists>b p. opt_prop c ''basePrice'' = JNum (Fin b) \<and> opt_prop c ''packSize'' = JNum (Fin p) \<and> 0 < p)"
  by (auto simp: valid_offer_def split: jsval.splits jsnum.splits)

lemma number_isFinite_iff: "number_isFinite v \<longleftrightarrow> (\<exists>r. v = JNum (Fin r))"
  by (cases v rule: number_isFinite.cases) simp_all

lemma qualifies_valid_offer:
  assumes "c \<noteq> JNull" "c \<noteq> JUndefined"
  shows "qualifies c = Some (valid_offer c)"
proof -
  have "(number_isFinite (opt_prop c ''basePrice'') \<and> number_isFinite (opt_prop c ''packSize'')
         \<and> js_lt (Fin 0) (to_number (opt_prop c ''packSize''))) = valid_offer c"
    unfolding valid_offer_iff number_isFinite_iff by auto
  then show ?thesis
    by (simp add: qualifies_def get_prop_opt_prop[OF assms])
qed

lemma qualifies_None_iff: "qualifies c = None \<longleftrightarrow> c = JNull \<or> c = JUndefined"
  by (cases c) (simp_all add: qualifies_def)

lemma qualifies_numbers:
  assumes "qualifies c = Some True"
  shows "\<exists>b p. get_prop c ''basePrice'' = Some (JNum (Fin b))
               \<and> get_prop c ''packSize'' = Some (JNum (Fin p)) \<and> 0 < p"
proof -
  have nn: "c \<noteq> JNull" "c \<noteq> JUndefined"
    using assms qualifies_None_iff[of c] by auto
  then have "valid_offer c" using assms qualifies_valid_offer by simp
  then show ?thesis using get_prop_opt_prop[OF nn] by (simp add: valid_offer_iff)
qed

lemma valid_offer_not_null: "valid_offer c \<Longrightarrow> c \<noteq> JNull \<and> c \<noteq> JUndefined"
  by (auto simp: valid_offer_def opt_prop_def)

lemma valid_offer_obj: "valid_offer c \<Longrightarrow> \<exists>kvs. c = JObj kvs"
  by (cases c) (simp_all add: valid_offer_def opt_prop_def)

lemma filter_offers_eq:
  assumes "JNull \<notin> set cs" "JUndefined \<notin> set cs"
  shows "filter_offers cs = Some (filter valid_offer cs)"
  using assms by (induction cs) (auto simp: qualifies_valid_offer)

lemma filter_offers_None_iff:
  "filter_offers cs = None \<longleftrightarrow> JNull \<in> set cs \<or> JUndefined \<in> set cs"
proof (induction cs)
  case Nil
  then show ?case by simp
next
  case (Cons c cs)
  show ?case
  proof (cases "qualifies c")
    case None
    then show ?thesis using qualifies_None_iff[of c] by auto
  next
    case (Some keep)
    then have "c \<noteq> JNull \<and> c \<noteq> JUndefined" using qualifies_None_iff[of c] by auto
    then show ?thesis using Some Cons by (auto split: option.splits)
  qed
qed

lemma map_of_replace_prop_if:
  "map_of (replace_prop kvs k v) x =
     (if x = k \<and> k \<in> set (map fst kvs) then Some v else map_of kvs x)"
  by (induction kvs) (force simp: image_iff)+

lemma map_of_replace_prop:
  "k \<in> set (map fst kvs) \<Longrightarrow> map_of (replace_prop kvs k v) = (map_of kvs)(k \<mapsto> v)"
  by (rule ext) (simp add: map_of_replace_prop_if)

lemma map_of_insert_prop:
  "k \<notin> set (map fst kvs) \<Longrightarrow> map_of (insert_prop kvs k v) = (map_of kvs)(k \<mapsto> v)"
  by (induction kvs) (auto simp: fun_eq_iff)

lemma map_of_set_prop: "map_of (set_prop kvs k v) = (map_of kvs)(k \<mapsto> v)"
  by (simp add: set_prop_def map_of_replace_prop map_of_insert_prop)

lemma obj_get_set_prop:
  "obj_get (set_prop kvs k v) k' = (if k' = k then v else obj_get kvs k')"
  by (simp add: obj_get_def map_of_set_prop)

lemma with_unit_valid:
  assumes "opt_prop c ''basePrice'' = JNum (Fin b)" "opt_prop c ''packSize'' = JNum (Fin p)" "0 < p"
  shows "with_unit c = Some (set_prop (own_props c) ''unitPrice'' (JNum (fl (b / p))))"
proof -
  have "valid_offer c" using assms by (auto simp: valid_offer_iff)
  then have "c \<noteq> JNull" "c \<noteq> JUndefined" using valid_offer_not_null by auto
  then show ?thesis using assms by (simp add: with_unit_def get_prop_opt_prop)
qed

lemma with_unit_rounded:
  assumes "valid_offer c"
  shows "\<exists>offer r. with_unit c = Some offer \<and> unit_price offer = fl r"
proof -
  obtain b p where "opt_prop c ''basePrice'' = JNum (Fin b)" "opt_prop c ''packSize'' = JNum (Fin p)" "0 < p"
    using assms unfolding valid_offer_iff by blast
  from with_unit_valid[OF this] show ?thesis
    by (auto simp: unit_price_def obj_get_set_prop)
qed

lemma with_unit_fields:
  assumes "opt_prop c ''basePrice'' = JNum (Fin b)" "opt_prop c ''packSize'' = JNum (Fin p)" "0 < p"
  shows "\<exists>offer. with_unit c = Some offer
           \<and> obj_get offer ''unitPrice'' = JNum (fl (b / p))
           \<and> (\<forall>k. k \<noteq> ''unitPrice'' \<longrightarrow> obj_get offer k = opt_prop c k)"
proof -
  have "valid_offer c" using assms by (auto simp: valid_offer_iff)
  then obtain kvs where c: "c = JObj kvs" using valid_offer_obj by blast
  have "with_unit c = Some (set_prop (own_props c) ''unitPrice'' (JNum (fl (b / p))))"
    using assms by (rule with_unit_valid)
  then show ?thesis by (simp add: obj_get_set_prop c opt_prop_def)
qed

lemma map_offers_valid:
  assumes "\<forall>c\<in>set vs. valid_offer c"
  shows "\<exists>wu. map_offers vs = Some wu
            \<and> list_all2 (\<lambda>c offer. with_unit c = Some offer) vs wu
            \<and> (\<forall>offer\<in>set wu. \<exists>r. unit_price offer = fl r)"
  using assms
proof (induction vs)
  case Nil
  then show ?case by simp
next
  case (Cons c vs)
  then obtain wu where wu: "map_offers vs = Some wu"
      "list_all2 (\<lambda>c offer. with_unit c = Some offer) vs wu"
      "\<forall>offer\<in>set wu. \<exists>r. unit_price offer = fl r"
    by auto
  obtain offer r where "with_unit c = Some offer" "unit_price offer = fl r"
    using with_unit_rounded[of c] Cons.prems by auto
  then show ?case using wu by auto
qed

lemma withUnits_total:
  assumes "JNull \<notin> set cs" "JUndefined \<notin> set cs"
  shows "\<exists>wu. withUnits cs = Some wu
            \<and> list_all2 (\<lambda>c offer. with_unit c = Some offer) (filter valid_offer cs) wu
            \<and> (\<forall>offer\<in>set wu. \<exists>r. unit_price offer = fl r)"
  using map_offers_valid[of "filter valid_offer cs"] filter_offers_eq[OF assms]
  by (simp add: withUnits_def)

lemma withUnits_None_iff:
  "withUnits cs = None \<longleftrightarrow> JNull \<in> set cs \<or> JUndefined \<in> set cs"
proof (cases "JNull \<in> set cs \<or> JUndefined \<in> set cs")
  case True
  then show ?thesis using filter_offers_None_iff[of cs] by (simp add: withUnits_def)
next
  case False
  then show ?thesis using withUnits_total[of cs] by auto
qed

lemma best_offer_selector_eq:
  assumes "withUnits cs = Some wu"
  shows "best_offer_selector cs =
           (if wu = [] then NoneValid else Selected (array_sort wu) (JObj (array_sort wu ! 0)))"
proof (cases "wu = []")
  case True
  then show ?thesis using assms by (simp add: best_offer_selector_def)
next
  case False
  then obtain x xs where "array_sort wu = x # xs"
    using array_sort_Nil_iff[of wu] by (cases "array_sort wu") auto
  then show ?thesis using assms False by (simp add: best_offer_selector_def Let_def)
qed

lemma list_all2_right_source:
  "list_all2 P xs ys \<Longrightarrow> y \<in> set ys \<Longrightarrow> \<exists>x\<in>set xs. P x y"
  by (induction rule: list_all2_induct) auto

lemma list_all2_left_image:
  "list_all2 P xs ys \<Longrightarrow> x \<in> set xs \<Longrightarrow> \<exists>y\<in>set ys. P x y"
  by (induction rule: list_all2_induct) auto

lemma example_offers_selection:
  "best_offer_selector example_offers
     = Selected
         [[(''retailer'', JStr ''C''), (''basePrice'', JNum (Fin 15)), (''packSize'', JNum (Fin 50)),
           (''unitPrice'', JNum (fl (3 / 10)))],
          [(''retailer'', JStr ''A''), (''basePrice'', JNum (Fin 40)), (''packSize'', JNum (Fin 100)),
           (''unitPrice'', JNum (fl (2 / 5)))],
          [(''retailer'', JStr ''D''), (''basePrice'', JNum (Fin 20)), (''packSize'', JNum (Fin 50)),
           (''unitPrice'', JNum (fl (2 / 5)))]]
         (JObj [(''retailer'', JStr ''C''), (''basePrice'', JNum (Fin 15)), (''packSize'', JNum (Fin 50)),
                (''unitPrice'', JNum (fl (3 / 10)))])"
  by code_simp

text \<open>
  On a candidate array that holds no \<^verbatim>\<open>null\<close>: the scored offers are those of the input
  that pass validation, in their order and with their multiplicity, and sorting only
  rearranges them; the scored offer has the rounded quotient as \<^verbatim>\<open>unitPrice\<close> and every
  other field as in the input.
\<close>

lemma scored_offers_without_null:
  assumes "JNull \<notin> set cs" "JUndefined \<notin> set cs"
  shows "\<exists>wu. withUnits cs = Some wu
      \<and> list_all2 (\<lambda>c offer. with_unit c = Some offer) (filter valid_offer cs) wu
      \<and> mset (array_sort wu) = mset wu
      \<and> (\<forall>c\<in>set cs. valid_offer c \<longleftrightarrow>
            (\<exists>b p. opt_prop c ''basePrice'' = JNum (Fin b)
                 \<and> opt_prop c ''packSize'' = JNum (Fin p) \<and> 0 < p))
      \<and> (\<forall>c\<in>set cs. \<forall>b p.
            opt_prop c ''basePrice'' = JNum (Fin b)
              \<and> opt_prop c ''packSize'' = JNum (Fin p) \<and> 0 < p \<longrightarrow>
            (\<exists>offer. with_unit c = Some offer
               \<and> obj_get offer ''unitPrice'' = JNum (fl (b / p))
               \<and> (\<forall>k. k \<noteq> ''unitPrice'' \<longrightarrow> obj_get offer k = opt_prop c k)))"
proof -
  obtain wu where wu: "withUnits cs = Some wu"
      "list_all2 (\<lambda>c offer. with_unit c = Some offer) (filter valid_offer cs) wu"
      "\<forall>offer\<in>set wu. \<exists>r. unit_price offer = fl r"
    using withUnits_total[OF assms] by blast
  have "mset (array_sort wu) = mset wu" using wu(3) by (rule array_sort_mset)
  moreover have "\<forall>c\<in>set cs. valid_offer c \<longleftrightarrow>
            (\<exists>b p. opt_prop c ''basePrice'' = JNum (Fin b)
                 \<and> opt_prop c ''packSize'' = JNum (Fin p) \<and> 0 < p)"
    using valid_offer_iff by blast
  moreover have "\<forall>c\<in>set cs. \<forall>b p.
            opt_prop c ''basePrice'' = JNum (Fin b)
              \<and> opt_prop c ''packSize'' = JNum (Fin p) \<and> 0 < p \<longrightarrow>
            (\<exists>offer. with_unit c = Some offer
               \<and> obj_get offer ''unitPrice'' = JNum (fl (b / p))
               \<and> (\<forall>k. k \<noteq> ''unitPrice'' \<longrightarrow> obj_get offer k = opt_prop c k))"
    using with_unit_fields by blast
  ultimately show ?thesis using wu(1,2) by blast
qed

lemma scored_sources_without_null:
  assumes "JNull \<notin> set cs" "JUndefined \<notin> set cs"
  shows "\<exists>wu. withUnits cs = Some wu
      \<and> (\<forall>offer\<in>set (array_sort wu). \<exists>c\<in>set cs. with_unit c = Some offer
            \<and> (\<exists>b p. opt_prop c ''basePrice'' = JNum (Fin b)
                   \<and> opt_prop c ''packSize'' = JNum (Fin p) \<and> 0 < p))
      \<and> (\<forall>c\<in>set cs. \<forall>b p.
            opt_prop c ''basePrice'' = JNum (Fin b)
              \<and> opt_prop c ''packSize'' = JNum (Fin p) \<and> 0 < p \<longrightarrow>
            (\<exists>offer\<in>set (array_sort wu). with_unit c = Some offer))"
proof -
  obtain wu where wu: "withUnits cs = Some wu"
      "list_all2 (\<lambda>c offer. with_unit c = Some offer) (filter valid_offer cs) wu"
      "\<forall>offer\<in>set wu. \<exists>r. unit_price offer = fl r"
    using withUnits_total[OF assms] by blast
  have s: "set (array_sort wu) = set wu"
    using array_sort_mset[OF wu(3)] by (rule mset_eq_setD)
  have "\<forall>offer\<in>set (array_sort wu). \<exists>c\<in>set cs. with_unit c = Some offer
            \<and> (\<exists>b p. opt_prop c ''basePrice'' = JNum (Fin b)
                   \<and> opt_prop c ''packSize'' = JNum (Fin p) \<and> 0 < p)"
  proof
    fix offer assume "offer \<in> set (array_sort wu)"
    then have "offer \<in> set wu" using s by simp
    then obtain c where "c \<in> set (filter valid_offer cs)" "with_unit c = Some offer"
      using list_all2_right_source[OF wu(2)] by blast
    then show "\<exists>c\<in>set cs. with_unit c = Some offer
            \<and> (\<exists>b p. opt_prop c ''basePrice'' = JNum (Fin b)
                   \<and> opt_prop c ''packSize'' = JNum (Fin p) \<and> 0 < p)"
      using valid_offer_iff by auto
  qed
  moreover have "\<forall>c\<in>set cs. \<forall>b p.
            opt_prop c ''basePrice'' = JNum (Fin b)
              \<and> opt_prop c ''packSize'' = JNum (Fin p) \<and> 0 < p \<longrightarrow>
            (\<exists>offer\<in>set (array_sort wu). with_unit c = Some offer)"
  proof (intro ballI allI impI)
    fix c b p
    assume c: "c \<in> set cs" and f: "opt_prop c ''basePrice'' = JNum (Fin b)
              \<and> opt_prop c ''packSize'' = JNum (Fin p) \<and> 0 < p"
    then have "valid_offer c" using valid_offer_iff by blast
    then have "c \<in> set (filter valid_offer cs)" using c by simp
    then show "\<exists>offer\<in>set (array_sort wu). with_unit c = Some offer"
      using list_all2_left_image[OF wu(2)] s by blast
  qed
  ultimately show ?thesis using wu(1) by blast
qed

section \<open>The pattern match and the two normalisations\<close>

text \<open>The reference parser on a few texts, accepted and rejected.\<close>

lemma json_parse_examples:
  \<open>json_parse '' [1, 2.5e1, true, null, "a"] ''
     = Some (JArr [JNum (Fin 1), JNum (Fin 25), JBool True, JNull, JStr ''a''])\<close>
  \<open>json_parse ''{"a":1,"b":{"c":[]},"a":2}''
     = Some (JObj [(''a'', JNum (Fin 2)), (''b'', JObj [(''c'', JArr [])])])\<close>
  \<open>json_parse ''01'' = None\<close>
  \<open>json_parse ''[1,]'' = None\<close>
  \<open>json_parse ''{"a":1,}'' = None\<close>
  \<open>json_parse ''{unknown}'' = None\<close>
  \<open>json_parse [] = None\<close>
  by code_simp+

text \<open>
  An escape above \<^verbatim>\<open>00FF\<close> is read as its UTF-8 bytes, a pair of surrogates as the one code
  point, and the keys that are array indices are listed first, in ascending order.
\<close>

lemma json_parse_escapes_and_order:
  \<open>json_parse ([CHR ''"'', CHR 0x5C] @ ''u4e2d'' @ [CHR ''"''])
     = Some (JStr [CHR 0xE4, CHR 0xB8, CHR 0xAD])\<close>
  \<open>json_parse ([CHR ''"'', CHR 0x5C] @ ''ud83d'' @ [CHR 0x5C] @ ''ude00'' @ [CHR ''"''])
     = Some (JStr [CHR 0xF0, CHR 0x9F, CHR 0x98, CHR 0x80])\<close>
  \<open>json_parse ''{"b":1,"2":2,"10":4,"1":3,"01":5}''
     = Some (JObj [(''1'', JNum (Fin 3)), (''2'', JNum (Fin 2)), (''10'', JNum (Fin 4)),
                   (''b'', JNum (Fin 1)), (''01'', JNum (Fin 5))])\<close>
  by code_simp+

text \<open>
  A \<^verbatim>\<open>productUrl\<close> that cannot be converted to a string ends the request before the
  automation service is called.
\<close>

lemma product_url_not_convertible:
  \<open>find_and_buy
      (stub_env ''[{"basePrice":20,"packSize":50,"productUrl":{"toString":1}}]'' True ''{}'')
      diapers
     = \<lparr>calls = [CompletionCall (JStr ''Huggies baby diaper size 4'')], status = 500,
        body = JObj [(''error'', JStr ''Server error'')]\<rparr>\<close>
  by code_simp




lemma candidates_of_array:
  assumes "s \<noteq> []" "P s = Some (JArr xs)"
  shows "candidates_of P (Some s) = JArr xs"
  using assms by (simp add: candidates_of_def)

lemma candidates_of_wrapped:
  assumes "s \<noteq> []" "P s = Some (JObj kvs)"
  shows "candidates_of P (Some s) =
           (if truthy (obj_get kvs ''items'') then obj_get kvs ''items''
            else if truthy (obj_get kvs ''results'') then obj_get kvs ''results''
            else JArr [])"
  using assms by (simp add: candidates_of_def)

lemma unusable_reply_no_candidates:
  assumes "raw = (case content of None \<Rightarrow> ''[]'' | Some s \<Rightarrow> if s = [] then ''[]'' else s)"
    and "P raw = None
         \<or> (\<exists>parsed. P raw = Some parsed \<and> \<not> array_isArray parsed
               \<and> \<not> array_isArray (opt_prop parsed ''items'')
               \<and> \<not> array_isArray (opt_prop parsed ''results''))"
  shows "elements (candidates_of P content) = []"
proof -
  from assms(2) show ?thesis
  proof
    assume "P raw = None"
    then show ?thesis using assms(1) by (simp add: candidates_of_def)
  next
    assume "\<exists>parsed. P raw = Some parsed \<and> \<not> array_isArray parsed
               \<and> \<not> array_isArray (opt_prop parsed ''items'')
               \<and> \<not> array_isArray (opt_prop parsed ''results'')"
    then obtain parsed where p: "P raw = Some parsed" "\<not> array_isArray parsed"
        "\<not> array_isArray (opt_prop parsed ''items'')"
        "\<not> array_isArray (opt_prop parsed ''results'')"
      by blast
    have e: "\<And>v. \<not> array_isArray v \<Longrightarrow> elements v = []"
      by (case_tac v) simp_all
    show ?thesis
      using p assms(1) e[OF p(3)] e[OF p(4)]
      by (auto simp: candidates_of_def Let_def opt_prop_def split: option.splits)
  qed
qed

section \<open>The paths through the handler\<close>

lemma request_query:
  "get_prop (if truthy req then req else JObj []) ''query'' = Some (opt_prop req ''query'')"
  by (cases req) (simp_all add: opt_prop_def obj_get_def)

lemma accepted_query_iff:
  "(truthy v \<and> js_typeof v = ''string'') \<longleftrightarrow> (\<exists>s. s \<noteq> [] \<and> v = JStr s)"
  by (cases v) auto

lemma verify_checkout_calls:
  "calls (verify_checkout E q ranked best url) = [CompletionCall q, AutomationCall url q]"
  by (simp add: verify_checkout_def Let_def server_error_def split: fetch_result.splits)

lemma verify_checkout_status:
  "status (verify_checkout E q ranked best url) \<in> {200, 500, 502}"
  by (simp add: verify_checkout_def Let_def server_error_def split: fetch_result.splits)

lemma select_and_verify_cases:
  "(calls (select_and_verify E q cands) = [CompletionCall q]
      \<and> status (select_and_verify E q cands) \<in> {500, 502})
   \<or> (\<exists>ranked best url. select_and_verify E q cands = verify_checkout E q ranked best url)"
  by (auto simp: select_and_verify_def server_error_def split: selection.splits option.splits)

lemma find_and_buy_cases:
  "(calls (find_and_buy E req) = [] \<and> status (find_and_buy E req) = 400)
   \<or> (\<exists>q. opt_prop req ''query'' = q \<and> calls (find_and_buy E req) = [CompletionCall q]
          \<and> status (find_and_buy E req) \<in> {500, 502})
   \<or> (\<exists>ranked best url. find_and_buy E req = verify_checkout E (opt_prop req ''query'') ranked best url)"
proof (cases "truthy (opt_prop req ''query'') \<and> js_typeof (opt_prop req ''query'') = ''string''")
  case False
  then show ?thesis by (auto simp: find_and_buy_def request_query)
next
  case True
  show ?thesis
  proof (cases "chat_create E (opt_prop req ''query'')")
    case ChatRejected
    then show ?thesis using True by (simp add: find_and_buy_def request_query server_error_def)
  next
    case (ChatContent content)
    then have "find_and_buy E req
        = select_and_verify E (opt_prop req ''query'') (candidates_of (parse E) content)"
      using True by (simp add: find_and_buy_def request_query)
    then show ?thesis
      using select_and_verify_cases[of E "opt_prop req ''query''" "candidates_of (parse E) content"]
      by auto
  qed
qed

lemma automation_call_made:
  assumes "AutomationCall url q \<in> set (calls (find_and_buy E req))"
  shows "\<exists>ranked best. find_and_buy E req = verify_checkout E q ranked best url"
proof -
  consider "calls (find_and_buy E req) = []"
    | q' where "calls (find_and_buy E req) = [CompletionCall q']"
    | ranked best url' where
        "find_and_buy E req = verify_checkout E (opt_prop req ''query'') ranked best url'"
    using find_and_buy_cases[of E req] by blast
  then show ?thesis
  proof cases
    case 1
    then show ?thesis using assms by simp
  next
    case 2
    then show ?thesis using assms by simp
  next
    case 3
    then have "url' = url" "opt_prop req ''query'' = q"
      using assms by (simp_all add: verify_checkout_calls)
    then show ?thesis using 3 by blast
  qed
qed

lemma accepted_query_outcome:
  assumes "truthy (opt_prop req ''query'') \<and> js_typeof (opt_prop req ''query'') = ''string''"
  shows "status (find_and_buy E req) \<noteq> 400 \<and> calls (find_and_buy E req) \<noteq> []"
proof (cases "chat_create E (opt_prop req ''query'')")
  case ChatRejected
  then show ?thesis using assms by (simp add: find_and_buy_def request_query server_error_def)
next
  case (ChatContent content)
  let ?q = "opt_prop req ''query''"
  let ?c = "candidates_of (parse E) content"
  have eq: "find_and_buy E req = select_and_verify E ?q ?c"
    using assms ChatContent by (simp add: find_and_buy_def request_query)
  consider "calls (select_and_verify E ?q ?c) = [CompletionCall ?q]"
      "status (select_and_verify E ?q ?c) \<in> {500, 502}"
    | ranked best url where "select_and_verify E ?q ?c = verify_checkout E ?q ranked best url"
    using select_and_verify_cases[of E ?q ?c] by blast
  then show ?thesis
  proof cases
    case 1
    then show ?thesis using eq by auto
  next
    case 2
    then show ?thesis
      using eq verify_checkout_status[of E ?q ranked best url]
      by (auto simp: verify_checkout_calls)
  qed
qed

lemma verify_checkout_chat:
  "verify_checkout (E\<lparr>chat_create := f\<rparr>) q ranked best url = verify_checkout E q ranked best url"
  by (simp add: verify_checkout_def Let_def split: fetch_result.splits)

lemma select_and_verify_chat:
  "select_and_verify (E\<lparr>chat_create := f\<rparr>) q cands = select_and_verify E q cands"
  by (simp add: select_and_verify_def verify_checkout_chat split: selection.splits option.splits)

lemma no_candidates_response:
  assumes "\<not> array_isArray cands \<or> elements cands = []"
  shows "select_and_verify E q cands
           = \<lparr>calls = [CompletionCall q], status = 502,
              body = JObj [(''error'', JStr ''LLM returned no candidates'')]\<rparr>"
  using assms by (auto simp: select_and_verify_def error_body_def)

lemma none_valid_response:
  assumes "cs \<noteq> []" "JNull \<notin> set cs" "JUndefined \<notin> set cs" "filter valid_offer cs = []"
  shows "select_and_verify E q (JArr cs)
           = \<lparr>calls = [CompletionCall q], status = 502,
              body = JObj [(''error'', JStr ''Candidates missing price/packSize'')]\<rparr>"
proof -
  obtain wu where wu: "withUnits cs = Some wu"
      "list_all2 (\<lambda>c offer. with_unit c = Some offer) (filter valid_offer cs) wu"
    using withUnits_total[OF assms(2,3)] by blast
  then have "wu = []" using assms(4) by simp
  then have "best_offer_selector cs = NoneValid"
    using best_offer_selector_eq[OF wu(1)] by simp
  then show ?thesis using assms(1) by (simp add: select_and_verify_def error_body_def)
qed

lemma null_candidate_response:
  assumes "JNull \<in> set cs"
  shows "select_and_verify E q (JArr cs)
           = \<lparr>calls = [CompletionCall q], status = 500,
              body = JObj [(''error'', JStr ''Server error'')]\<rparr>"
proof -
  have "withUnits cs = None" using assms withUnits_None_iff by blast
  then have "best_offer_selector cs = Threw" by (simp add: best_offer_selector_def)
  moreover have "cs \<noteq> []" using assms by auto
  ultimately show ?thesis by (simp add: select_and_verify_def server_error_def error_body_def)
qed

section \<open>The claims\<close>

text \<open>
  In claim C1 a sequence of raw offers is a list of values none of which is \<^verbatim>\<open>null\<close> (or
  \<^verbatim>\<open>undefined\<close>, which JSON cannot express): the selector has an output exactly on these
  lists (\<open>withUnits_None_iff\<close>). What the handler does when an element is \<^verbatim>\<open>null\<close> is the
  subject of the claims C2 and C5.
\<close>

subsection \<open>C1: sorted, stable, best first\<close>

text \<open>
  Claim C1. For every sequence of raw offers, the selector produces its output: the
  scored offers \<open>wu\<close> correspond, position by position, to the offers of the input that
  pass validation; the ranked array \<open>array_sort wu\<close> is sorted ascending by
  \<^verbatim>\<open>unitPrice\<close>; for every unit price, the offers with that price stand in the ranked
  array in the order they have in \<open>wu\<close>, which is their input order (a stable sort);
  and whenever the ranked array is not empty, \<^verbatim>\<open>best\<close> is its first element.
\<close>

theorem selector_sorted_stable_best:
  assumes "JNull \<notin> set cs" "JUndefined \<notin> set cs"
  shows "\<exists>wu. withUnits cs = Some wu
      \<and> list_all2 (\<lambda>c offer. with_unit c = Some offer) (filter valid_offer cs) wu
      \<and> sorted_wrt (\<lambda>a b. js_le (unit_price a) (unit_price b)) (array_sort wu)
      \<and> (\<forall>k. filter (\<lambda>offer. unit_price offer = k) (array_sort wu)
              = filter (\<lambda>offer. unit_price offer = k) wu)
      \<and> best_offer_selector cs =
          (if array_sort wu = [] then NoneValid
           else Selected (array_sort wu) (JObj (array_sort wu ! 0)))"
proof -
  obtain wu where wu: "withUnits cs = Some wu"
      "list_all2 (\<lambda>c offer. with_unit c = Some offer) (filter valid_offer cs) wu"
      "\<forall>offer\<in>set wu. \<exists>r. unit_price offer = fl r"
    using withUnits_total[OF assms] by blast
  have "sorted_wrt (\<lambda>a b. js_le (unit_price a) (unit_price b)) (array_sort wu)"
    using wu(3) by (rule array_sort_sorted)
  moreover have "\<forall>k. filter (\<lambda>offer. unit_price offer = k) (array_sort wu)
              = filter (\<lambda>offer. unit_price offer = k) wu"
    using array_sort_stable[OF wu(3)] by blast
  moreover have "best_offer_selector cs =
          (if array_sort wu = [] then NoneValid
           else Selected (array_sort wu) (JObj (array_sort wu ! 0)))"
    using best_offer_selector_eq[OF wu(1)] by (simp add: array_sort_Nil_iff)
  ultimately show ?thesis using wu(1,2) by blast
qed

theorem selector_sorted_stable_best_witness:
  "JNull \<notin> set example_offers \<and> JUndefined \<notin> set example_offers \<and>
   (\<exists>wu. withUnits example_offers = Some wu
      \<and> list_all2 (\<lambda>c offer. with_unit c = Some offer) (filter valid_offer example_offers) wu
      \<and> sorted_wrt (\<lambda>a b. js_le (unit_price a) (unit_price b)) (array_sort wu)
      \<and> (\<forall>k. filter (\<lambda>offer. unit_price offer = k) (array_sort wu)
              = filter (\<lambda>offer. unit_price offer = k) wu)
      \<and> best_offer_selector example_offers =
          (if array_sort wu = [] then NoneValid
           else Selected (array_sort wu) (JObj (array_sort wu ! 0))))"
proof -
  have h1: "JNull \<notin> set example_offers" by (simp add: example_offers_def)
  have h2: "JUndefined \<notin> set example_offers" by (simp add: example_offers_def)
  show ?thesis using h1 h2 selector_sorted_stable_best[OF h1 h2] by blast
qed

subsection \<open>C2: which offers are scored, and with what\<close>

text \<open>
  Claim C2 says that every raw offer of the input is in the scored output exactly when
  its \<^verbatim>\<open>basePrice\<close> is a finite number and its \<^verbatim>\<open>packSize\<close> is a finite number above zero,
  with \<^verbatim>\<open>unitPrice\<close> equal to \<^verbatim>\<open>basePrice / packSize\<close> and every other field unchanged. For
  a candidate array that holds no \<^verbatim>\<open>null\<close> the handler does so
  (\<open>scored_offers_without_null\<close> above). But at the completion
  \<^verbatim>\<open>[{"basePrice":40,"packSize":100},null]\<close> the first offer passes the test of the filter
  and is not scored: the filter reads \<^verbatim>\<open>c.basePrice\<close> of the second element, \<^verbatim>\<open>null\<close>, which
  throws, nothing is scored, and the request ends in the error 500 of the outer
  \<^verbatim>\<open>catch\<close>. It is the defect of claim C5.
\<close>

theorem valid_offer_beside_null:
  \<open>qualifies (JObj [(''basePrice'', JNum (Fin 40)), (''packSize'', JNum (Fin 100))]) = Some True
   \<and> withUnits [JObj [(''basePrice'', JNum (Fin 40)), (''packSize'', JNum (Fin 100))], JNull] = None
   \<and> find_and_buy (stub_env ''[{"basePrice":40,"packSize":100},null]'' True ''{}'') diapers
       = \<lparr>calls = [CompletionCall (JStr ''Huggies baby diaper size 4'')], status = 500,
          body = JObj [(''error'', JStr ''Server error'')]\<rparr>\<close>
  by code_simp

theorem valid_offer_beside_null_witness:
  \<open>status (find_and_buy (stub_env ''[{"basePrice":40,"packSize":100},null]'' True ''{}'') diapers)
     = 500\<close>
  using valid_offer_beside_null by simp

subsection \<open>C3: the pack size need not be an integer\<close>

text \<open>
  Claim C3, as amended. Whenever the selector produces its output, a scored offer is
  only constructed for a raw offer whose \<^verbatim>\<open>basePrice\<close> is a finite number and whose
  \<^verbatim>\<open>packSize\<close> is a finite number above zero, and one is constructed for every such offer
  of the input, whether or not the \<^verbatim>\<open>packSize\<close> is an integer. Every such offer passes
  the test of the filter. The selector produces its output for every candidate array
  that holds no \<^verbatim>\<open>null\<close>.
\<close>

theorem scored_only_for_positive_finite:
  "(\<forall>wu. withUnits cs = Some wu \<longrightarrow>
      (\<forall>offer\<in>set (array_sort wu). \<exists>c\<in>set cs. with_unit c = Some offer
            \<and> (\<exists>b p. opt_prop c ''basePrice'' = JNum (Fin b)
                   \<and> opt_prop c ''packSize'' = JNum (Fin p) \<and> 0 < p))
      \<and> (\<forall>c\<in>set cs. \<forall>b p.
            opt_prop c ''basePrice'' = JNum (Fin b)
              \<and> opt_prop c ''packSize'' = JNum (Fin p) \<and> 0 < p \<longrightarrow>
            (\<exists>offer\<in>set (array_sort wu). with_unit c = Some offer)))
   \<and> (\<forall>c b p. opt_prop c ''basePrice'' = JNum (Fin b)
              \<and> opt_prop c ''packSize'' = JNum (Fin p) \<and> 0 < p \<longrightarrow>
            qualifies c = Some True)
   \<and> (JNull \<notin> set cs \<and> JUndefined \<notin> set cs \<longrightarrow> withUnits cs \<noteq> None)"
proof (intro conjI allI impI)
  fix wu assume wu: "withUnits cs = Some wu"
  then have nn: "JNull \<notin> set cs" "JUndefined \<notin> set cs"
    using withUnits_None_iff[of cs] by auto
  show "\<forall>offer\<in>set (array_sort wu). \<exists>c\<in>set cs. with_unit c = Some offer
            \<and> (\<exists>b p. opt_prop c ''basePrice'' = JNum (Fin b)
                   \<and> opt_prop c ''packSize'' = JNum (Fin p) \<and> 0 < p)"
    using scored_sources_without_null[OF nn] wu by auto
  show "\<forall>c\<in>set cs. \<forall>b p.
            opt_prop c ''basePrice'' = JNum (Fin b)
              \<and> opt_prop c ''packSize'' = JNum (Fin p) \<and> 0 < p \<longrightarrow>
            (\<exists>offer\<in>set (array_sort wu). with_unit c = Some offer)"
    using scored_sources_without_null[OF nn] wu by auto
next
  fix c b p
  assume f: "opt_prop c ''basePrice'' = JNum (Fin b)
              \<and> opt_prop c ''packSize'' = JNum (Fin p) \<and> 0 < p"
  then have v: "valid_offer c" using valid_offer_iff by blast
  then have "c \<noteq> JNull" "c \<noteq> JUndefined" using valid_offer_not_null by auto
  then show "qualifies c = Some True" using v by (simp add: qualifies_valid_offer)
next
  assume "JNull \<notin> set cs \<and> JUndefined \<notin> set cs"
  then show "withUnits cs \<noteq> None" using withUnits_None_iff[of cs] by simp
qed

text \<open>
  The claim as stated fails: from the raw offer with \<^verbatim>\<open>basePrice\<close> 10 and \<^verbatim>\<open>packSize\<close> 2.5
  the selector constructs the scored offer with \<^verbatim>\<open>unitPrice\<close> 4, and it is the best one.
\<close>

theorem fractional_pack_size_counterexample:
  "best_offer_selector [JObj [(''basePrice'', JNum (Fin 10)), (''packSize'', JNum (Fin (5 / 2)))]]
     = Selected [[(''basePrice'', JNum (Fin 10)), (''packSize'', JNum (Fin (5 / 2))),
                  (''unitPrice'', JNum (Fin 4))]]
         (JObj [(''basePrice'', JNum (Fin 10)), (''packSize'', JNum (Fin (5 / 2))),
                (''unitPrice'', JNum (Fin 4))])"
  by code_simp

theorem scored_only_for_positive_finite_witness:
  "withUnits [JObj [(''basePrice'', JNum (Fin 10)), (''packSize'', JNum (Fin (5 / 2)))],
              JObj [(''basePrice'', JNum (Fin 9)), (''packSize'', JNum (Fin (- 3)))]]
     = Some [[(''basePrice'', JNum (Fin 10)), (''packSize'', JNum (Fin (5 / 2))),
              (''unitPrice'', JNum (Fin 4))]]
   \<and> (\<exists>offer\<in>set (array_sort [[(''basePrice'', JNum (Fin 10)), (''packSize'', JNum (Fin (5 / 2))),
                                 (''unitPrice'', JNum (Fin 4))]]).
        with_unit (JObj [(''basePrice'', JNum (Fin 10)), (''packSize'', JNum (Fin (5 / 2)))])
          = Some offer)
   \<and> qualifies (JObj [(''basePrice'', JNum (Fin 10)), (''packSize'', JNum (Fin (5 / 2)))]) = Some True
   \<and> JNull \<notin> set [JObj [(''basePrice'', JNum (Fin 10)), (''packSize'', JNum (Fin (5 / 2)))],
                   JObj [(''basePrice'', JNum (Fin 9)), (''packSize'', JNum (Fin (- 3)))]]
   \<and> withUnits [JObj [(''basePrice'', JNum (Fin 10)), (''packSize'', JNum (Fin (5 / 2)))],
                JObj [(''basePrice'', JNum (Fin 9)), (''packSize'', JNum (Fin (- 3)))]] \<noteq> None"
proof -
  let ?c = "JObj [(''basePrice'', JNum (Fin 10)), (''packSize'', JNum (Fin (5 / 2)))]"
  let ?cs = "[?c, JObj [(''basePrice'', JNum (Fin 9)), (''packSize'', JNum (Fin (- 3)))]]"
  let ?wu = "[[(''basePrice'', JNum (Fin 10)), (''packSize'', JNum (Fin (5 / 2))),
               (''unitPrice'', JNum (Fin 4))]]"
  have w: "withUnits ?cs = Some ?wu" by code_simp
  have h1: "JNull \<notin> set ?cs \<and> JUndefined \<notin> set ?cs" by simp
  have m: "?c \<in> set ?cs" by simp
  have f: "opt_prop ?c ''basePrice'' = JNum (Fin 10) \<and> opt_prop ?c ''packSize'' = JNum (Fin (5 / 2))
           \<and> (0::rat) < 5 / 2"
    by (simp add: opt_prop_def obj_get_def)
  note t = scored_only_for_positive_finite[of ?cs]
  have a: "\<exists>offer\<in>set (array_sort ?wu). with_unit ?c = Some offer"
    using t w m f by blast
  have b: "qualifies ?c = Some True" using t f by blast
  have c: "withUnits ?cs \<noteq> None" using t h1 by blast
  show ?thesis using w a b c h1 by blast
qed

subsection \<open>C4: the example of the specification\<close>

text \<open>
  Claim C4, as amended. For the two raw offers \<^verbatim>\<open>{basePrice:30, packSize:100}\<close> and
  \<^verbatim>\<open>{basePrice:20, packSize:50}\<close> the selector returns them in this order, with the unit
  prices 0.3 and 0.4 (the doubles nearest to 3/10 and 2/5), and the first is \<^verbatim>\<open>best\<close>.
\<close>

theorem spec_example_selection:
  "best_offer_selector spec_offers
     = Selected
         [[(''basePrice'', JNum (Fin 30)), (''packSize'', JNum (Fin 100)),
           (''unitPrice'', JNum (fl (3 / 10)))],
          [(''basePrice'', JNum (Fin 20)), (''packSize'', JNum (Fin 50)),
           (''unitPrice'', JNum (fl (2 / 5)))]]
         (JObj [(''basePrice'', JNum (Fin 30)), (''packSize'', JNum (Fin 100)),
                (''unitPrice'', JNum (fl (3 / 10)))])"
  by code_simp

text \<open>The unit prices of the output are not 0.4 and 0.6, as the claim states them.\<close>

theorem spec_example_counterexample:
  "(case best_offer_selector spec_offers of
      Selected ranked best \<Rightarrow> map unit_price ranked
    | _ \<Rightarrow> []) \<noteq> [fl (2 / 5), fl (3 / 5)]"
  by code_simp

subsection \<open>C5: the two failures of the upstream data\<close>

text \<open>
  Claim C5 says that every non-empty candidate sequence in which no offer passes
  validation ends in the error 502 with the message
  \<^verbatim>\<open>Candidates missing price/packSize\<close>. The handler does so when no candidate is
  \<^verbatim>\<open>null\<close> (\<open>none_valid_response\<close> above), and it answers 502 with
  \<^verbatim>\<open>LLM returned no candidates\<close> for every reply that is empty, unparseable or of no
  recognised shape (\<open>unusable_reply_no_candidates\<close>, \<open>no_candidates_response\<close>). But
  on the completion \<^verbatim>\<open>[null]\<close> the filter reads \<^verbatim>\<open>c.basePrice\<close> of \<^verbatim>\<open>null\<close>, which throws,
  and the request ends in the error 500 of the outer \<^verbatim>\<open>catch\<close>
  (\<open>null_candidate_response\<close> for every array that holds a \<^verbatim>\<open>null\<close>).
\<close>

theorem null_candidate_server_error:
  \<open>find_and_buy (stub_env ''[null]'' True ''{}'') diapers
     = \<lparr>calls = [CompletionCall (JStr ''Huggies baby diaper size 4'')], status = 500,
        body = JObj [(''error'', JStr ''Server error'')]\<rparr>\<close>
  by code_simp

theorem null_candidate_server_error_witness:
  \<open>status (find_and_buy (stub_env ''[null]'' True ''{}'') diapers) = 500
   \<and> body (find_and_buy (stub_env ''[null]'' True ''{}'') diapers)
       = JObj [(''error'', JStr ''Server error'')]\<close>
  using null_candidate_server_error by simp

subsection \<open>C6: a reply that is a string\<close>




subsection \<open>C7: a wrapped array and the bare array\<close>

text \<open>
  Claim C7, as amended. For every completion whose parsed form is an object that holds
  the offer array under the key \<^verbatim>\<open>items\<close>, or under the key \<^verbatim>\<open>results\<close> while its
  \<^verbatim>\<open>items\<close> is absent or falsy, normalisation extracts that array, and the run is the
  same as the run on the bare array: the same outbound calls and the same response,
  candidates and best offer included.
\<close>

theorem wrapped_reply_as_bare:
  assumes "wrapped \<noteq> []" "bare \<noteq> []"
    and "parse E wrapped = Some (JObj kvs)" "parse E bare = Some (JArr xs)"
    and "obj_get kvs ''items'' = JArr xs
         \<or> (\<not> truthy (obj_get kvs ''items'') \<and> obj_get kvs ''results'' = JArr xs)"
  shows "candidates_of (parse E) (Some wrapped) = JArr xs
       \<and> candidates_of (parse E) (Some bare) = JArr xs
       \<and> find_and_buy (E\<lparr>chat_create := \<lambda>_. ChatContent (Some wrapped)\<rparr>) req
           = find_and_buy (E\<lparr>chat_create := \<lambda>_. ChatContent (Some bare)\<rparr>) req"
proof -
  have w: "candidates_of (parse E) (Some wrapped) = JArr xs"
    using assms(5) candidates_of_wrapped[where P = "parse E" and s = wrapped and kvs = kvs]
      assms(1) assms(3) by auto
  have b: "candidates_of (parse E) (Some bare) = JArr xs"
    using candidates_of_array[where P = "parse E" and s = bare and xs = xs] assms(2) assms(4)
    by simp
  have "find_and_buy (E\<lparr>chat_create := \<lambda>_. ChatContent (Some wrapped)\<rparr>) req
           = find_and_buy (E\<lparr>chat_create := \<lambda>_. ChatContent (Some bare)\<rparr>) req"
    by (simp add: find_and_buy_def select_and_verify_chat w b split: option.splits)
  then show ?thesis using w b by simp
qed

text \<open>
  The claim as stated fails for the key \<^verbatim>\<open>results\<close>: \<^verbatim>\<open>parsed.items\<close> comes first, so an
  object with a truthy \<^verbatim>\<open>items\<close> that is no array ends in the error 502, where the bare
  array of its \<^verbatim>\<open>results\<close> is answered with 200.
\<close>

theorem results_wrapper_counterexample:
  \<open>status (find_and_buy
      (stub_env ''{"items":"none","results":[{"basePrice":20,"packSize":50}]}'' True ''{}'') diapers) = 502
   \<and> status (find_and_buy (stub_env ''[{"basePrice":20,"packSize":50}]'' True ''{}'') diapers) = 200\<close>
  by code_simp

theorem wrapped_reply_as_bare_witness:
  "wrapped_offer \<noteq> [] \<and> results_wrapped_offer \<noteq> [] \<and> one_offer \<noteq> []
   \<and> parse (stub_env [] True ''{}'') wrapped_offer = Some (JObj [(''items'', JArr [the_offer])])
   \<and> parse (stub_env [] True ''{}'') results_wrapped_offer
       = Some (JObj [(''items'', JNull), (''results'', JArr [the_offer])])
   \<and> parse (stub_env [] True ''{}'') one_offer = Some (JArr [the_offer])
   \<and> candidates_of (parse (stub_env [] True ''{}'')) (Some wrapped_offer) = JArr [the_offer]
   \<and> candidates_of (parse (stub_env [] True ''{}'')) (Some results_wrapped_offer) = JArr [the_offer]
   \<and> find_and_buy ((stub_env [] True ''{}'')\<lparr>chat_create := \<lambda>_. ChatContent (Some wrapped_offer)\<rparr>) diapers
       = find_and_buy ((stub_env [] True ''{}'')\<lparr>chat_create := \<lambda>_. ChatContent (Some one_offer)\<rparr>) diapers
   \<and> find_and_buy ((stub_env [] True ''{}'')\<lparr>chat_create := \<lambda>_. ChatContent (Some results_wrapped_offer)\<rparr>) diapers
       = find_and_buy ((stub_env [] True ''{}'')\<lparr>chat_create := \<lambda>_. ChatContent (Some one_offer)\<rparr>) diapers"
proof -
  let ?E = "stub_env [] True ''{}''"
  have h1: "wrapped_offer \<noteq> []" by code_simp
  have h1': "results_wrapped_offer \<noteq> []" by code_simp
  have h2: "one_offer \<noteq> []" by code_simp
  have h3: "parse ?E wrapped_offer = Some (JObj [(''items'', JArr [the_offer])])"
    by code_simp
  have h3': "parse ?E results_wrapped_offer
       = Some (JObj [(''items'', JNull), (''results'', JArr [the_offer])])"
    by code_simp
  have h4: "parse ?E one_offer = Some (JArr [the_offer])"
    by code_simp
  have h5: "obj_get [(''items'', JArr [the_offer])] ''items'' = JArr [the_offer]"
    by (simp add: obj_get_def)
  have h5': "\<not> truthy (obj_get [(''items'', JNull), (''results'', JArr [the_offer])] ''items'')
      \<and> obj_get [(''items'', JNull), (''results'', JArr [the_offer])] ''results'' = JArr [the_offer]"
    by (simp add: obj_get_def)
  show ?thesis
    using h1 h1' h2 h3 h3' h4
      wrapped_reply_as_bare[OF h1 h2 h3 h4 disjI1[OF h5], of diapers]
      wrapped_reply_as_bare[OF h1' h2 h3' h4 disjI2[OF h5'], of diapers]
    by blast
qed

subsection \<open>C8: the automation service answers with a failure status\<close>

text \<open>
  Claim C8. Whenever the handler has called the automation service and the response
  has a non-success status, the request ends with the status 502, the error
  \<^verbatim>\<open>Browser-use request failed\<close> and, as \<^verbatim>\<open>details\<close>, the text of the response body (the
  empty string when the body cannot be read); it is not a success response.
\<close>

theorem automation_failure_502:
  assumes "AutomationCall url q \<in> set (calls (find_and_buy E req))"
    and "fetch_task E url q = FetchResponse False body_text"
  shows "status (find_and_buy E req) = 502
       \<and> body (find_and_buy E req)
           = JObj [(''error'', JStr ''Browser-use request failed''),
                   (''details'', JStr (case body_text of None \<Rightarrow> [] | Some txt \<Rightarrow> txt))]"
proof -
  obtain ranked best where "find_and_buy E req = verify_checkout E q ranked best url"
    using automation_call_made[OF assms(1)] by blast
  then show ?thesis using assms(2) by (simp add: verify_checkout_def Let_def)
qed

theorem automation_failure_502_witness:
  "AutomationCall (JStr ''https://shop/p'') (JStr ''Huggies baby diaper size 4'')
     \<in> set (calls (find_and_buy (stub_env one_offer False ''upstream exploded'') diapers))
   \<and> fetch_task (stub_env one_offer False ''upstream exploded'')
        (JStr ''https://shop/p'') (JStr ''Huggies baby diaper size 4'')
       = FetchResponse False (Some ''upstream exploded'')
   \<and> status (find_and_buy (stub_env one_offer False ''upstream exploded'') diapers) = 502
   \<and> body (find_and_buy (stub_env one_offer False ''upstream exploded'') diapers)
       = JObj [(''error'', JStr ''Browser-use request failed''),
               (''details'', JStr ''upstream exploded'')]"
proof -
  have h1: "AutomationCall (JStr ''https://shop/p'') (JStr ''Huggies baby diaper size 4'')
     \<in> set (calls (find_and_buy (stub_env one_offer False ''upstream exploded'') diapers))"
    by code_simp
  have h2: "fetch_task (stub_env one_offer False ''upstream exploded'')
        (JStr ''https://shop/p'') (JStr ''Huggies baby diaper size 4'')
       = FetchResponse False (Some ''upstream exploded'')"
    by (simp add: stub_env_def)
  show ?thesis using h1 h2 automation_failure_502[OF h1 h2] by simp
qed

subsection \<open>C9: the query of the request\<close>

text \<open>
  Claim C9. A request whose body has no \<^verbatim>\<open>query\<close>, or a \<^verbatim>\<open>query\<close> that is not a string, or
  the empty string, is answered with the status 400 and the body
  \<^verbatim>\<open>{ "error": "Missing 'query' string" }\<close>, and no outbound call is made; a request with
  a non-empty string as \<^verbatim>\<open>query\<close> is not answered with 400, and the completion call is
  made.
\<close>

theorem query_validation:
  "(\<not> (\<exists>s. s \<noteq> [] \<and> opt_prop req ''query'' = JStr s) \<longrightarrow>
      find_and_buy E req
        = \<lparr>calls = [], status = 400, body = JObj [(''error'', JStr ''Missing 'query' string'')]\<rparr>)
   \<and> ((\<exists>s. s \<noteq> [] \<and> opt_prop req ''query'' = JStr s) \<longrightarrow>
      status (find_and_buy E req) \<noteq> 400 \<and> calls (find_and_buy E req) \<noteq> [])"
proof (rule conjI; rule impI)
  assume "\<not> (\<exists>s. s \<noteq> [] \<and> opt_prop req ''query'' = JStr s)"
  then have "\<not> (truthy (opt_prop req ''query'') \<and> js_typeof (opt_prop req ''query'') = ''string'')"
    using accepted_query_iff by blast
  then show "find_and_buy E req
        = \<lparr>calls = [], status = 400, body = JObj [(''error'', JStr ''Missing 'query' string'')]\<rparr>"
    by (auto simp: find_and_buy_def request_query error_body_def)
next
  assume "\<exists>s. s \<noteq> [] \<and> opt_prop req ''query'' = JStr s"
  then have "truthy (opt_prop req ''query'') \<and> js_typeof (opt_prop req ''query'') = ''string''"
    using accepted_query_iff by blast
  then show "status (find_and_buy E req) \<noteq> 400 \<and> calls (find_and_buy E req) \<noteq> []"
    by (rule accepted_query_outcome)
qed

theorem query_validation_witness:
  "find_and_buy (stub_env one_offer True ''{}'') (JObj [(''query'', JNum (Fin 4))])
     = \<lparr>calls = [], status = 400, body = JObj [(''error'', JStr ''Missing 'query' string'')]\<rparr>
   \<and> status (find_and_buy (stub_env one_offer True ''{}'') diapers) \<noteq> 400
   \<and> calls (find_and_buy (stub_env one_offer True ''{}'') diapers) \<noteq> []"
proof -
  have a: "\<not> (\<exists>s. s \<noteq> [] \<and> opt_prop (JObj [(''query'', JNum (Fin 4))]) ''query'' = JStr s)"
    by (simp add: opt_prop_def obj_get_def)
  have b: "\<exists>s. s \<noteq> [] \<and> opt_prop diapers ''query'' = JStr s"
    by (simp add: diapers_def opt_prop_def obj_get_def)
  show ?thesis
    using a b query_validation[of "JObj [(''query'', JNum (Fin 4))]" "stub_env one_offer True ''{}''"]
      query_validation[of diapers "stub_env one_offer True ''{}''"]
    by blast
qed

subsection \<open>C10: a success status with a body that cannot be used\<close>

text \<open>
  Claim C10. Whenever the handler has called the automation service and the response
  has a success status, but its body is not valid JSON (or cannot be read), or the
  normalised reply is a string whose text between braces does not parse, the request is
  answered with the status 200 and the \<^verbatim>\<open>checkout\<close> of the response is the empty object.
\<close>

theorem unparseable_reply_empty_checkout:
  assumes "AutomationCall url q \<in> set (calls (find_and_buy E req))"
    and "fetch_task E url q = FetchResponse True body_text"
    and "body_text = None
         \<or> (\<exists>txt. body_text = Some txt
               \<and> (parse E txt = None
                  \<or> (\<exists>buJson s found. parse E txt = Some buJson \<and> unwrap_reply buJson = JStr s
                        \<and> match_braces s = Some found \<and> parse E found = None)))"
  shows "status (find_and_buy E req) = 200
       \<and> opt_prop (body (find_and_buy E req)) ''checkout'' = JObj []"
proof -
  obtain ranked best where "find_and_buy E req = verify_checkout E q ranked best url"
    using automation_call_made[OF assms(1)] by blast
  moreover have "checkout_of (parse E) body_text = JObj []"
    using assms(3) by (auto simp: checkout_of_def recover_json_def)
  ultimately show ?thesis using assms(2)
    by (simp add: verify_checkout_def Let_def opt_prop_def obj_get_def)
qed

theorem unparseable_reply_empty_checkout_witness:
  "AutomationCall (JStr ''https://shop/p'') (JStr ''Huggies baby diaper size 4'')
     \<in> set (calls (find_and_buy (stub_env one_offer True ''<html>Bad gateway</html>'') diapers))
   \<and> fetch_task (stub_env one_offer True ''<html>Bad gateway</html>'')
        (JStr ''https://shop/p'') (JStr ''Huggies baby diaper size 4'')
       = FetchResponse True (Some ''<html>Bad gateway</html>'')
   \<and> parse (stub_env one_offer True ''<html>Bad gateway</html>'') ''<html>Bad gateway</html>'' = None
   \<and> status (find_and_buy (stub_env one_offer True ''<html>Bad gateway</html>'') diapers) = 200
   \<and> opt_prop (body (find_and_buy (stub_env one_offer True ''<html>Bad gateway</html>'') diapers))
        ''checkout'' = JObj []"
proof -
  let ?E = "stub_env one_offer True ''<html>Bad gateway</html>''"
  have h1: "AutomationCall (JStr ''https://shop/p'') (JStr ''Huggies baby diaper size 4'')
     \<in> set (calls (find_and_buy ?E diapers))"
    by code_simp
  have h2: "fetch_task ?E (JStr ''https://shop/p'') (JStr ''Huggies baby diaper size 4'')
       = FetchResponse True (Some ''<html>Bad gateway</html>'')"
    by (simp add: stub_env_def)
  have p: "parse ?E ''<html>Bad gateway</html>'' = None" by code_simp
  have h3: "Some ''<html>Bad gateway</html>'' = None
         \<or> (\<exists>txt. Some ''<html>Bad gateway</html>'' = Some txt
               \<and> (parse ?E txt = None
                  \<or> (\<exists>buJson s found. parse ?E txt = Some buJson \<and> unwrap_reply buJson = JStr s
                        \<and> match_braces s = Some found \<and> parse ?E found = None)))"
    using p by blast
  show ?thesis using h1 h2 p unparseable_reply_empty_checkout[OF h1 h2 h3] by simp
qed

end
